theory Spec2Isabelle
  imports Complex_Main
begin

section \<open>Open queueing network simulation: the model of \<open>simulation_gui.py\<close>\<close>

text \<open>
  The discrete-event engine \<open>SimulationModel\<close> and the analytical formulas of
  \<open>SimulatorGUI.finish_and_compare\<close>. Python floats are read as reals; the counters
  are Python's unbounded integers. The dictionaries \<open>queues\<close>, \<open>server_busy\<close>,
  \<open>stats\<close> and \<open>MU_RATES\<close> have exactly the keys 1, 2, 3, 4 and every
  \<open>queue_id\<close> the program builds is the literal 1 or a routing result 2, 3 or 4, so the
  station ids are a four-valued datatype and the dictionaries are functions on it.
  The trace strings (\<open>log_msg\<close>, \<open>msg\<close>) never flow back into the state and are left out.
\<close>

subsection \<open>Configuration\<close>

datatype station = Q1 | Q2 | Q3 | Q4

definition LAMBDA_SOURCE_RATE :: real where
  "LAMBDA_SOURCE_RATE = 4"

fun MU_RATES :: "station \<Rightarrow> real" where
  "MU_RATES Q1 = 5"
| "MU_RATES Q2 = 3"
| "MU_RATES Q3 = 3"
| "MU_RATES Q4 = 5"

record probs =
  p_1_to_2 :: real
  p_1_to_3 :: real
  p_4_exit :: real
  p_4_to_3 :: real

definition PROBS :: probs where
  "PROBS = \<lparr>p_1_to_2 = 4 / 10, p_1_to_3 = 6 / 10, p_4_exit = 9 / 10, p_4_to_3 = 1 / 10\<rparr>"

text \<open>
  \<open>MAX_COMPLETED\<close> and \<open>WARM_UP_CUSTOMERS\<close> are module constants of the program; the
  test scenarios vary them, so the engine takes them as a parameter. \<open>source_config\<close>
  holds the values of the source.
\<close>

record config =
  MAX_COMPLETED :: int
  WARM_UP_CUSTOMERS :: int

definition source_config :: config where
  "source_config = \<lparr>MAX_COMPLETED = 50000, WARM_UP_CUSTOMERS = 1000\<rparr>"

subsection \<open>The random source\<close>

text \<open>
  The program calls \<open>random.expovariate(rate)\<close> and \<open>random.random()\<close> on the global
  generator. The generator is a function from the number of draws made so far and the
  request to the value drawn; the state counts the draws.
\<close>

datatype draw = Expovariate real | Random

type_synonym rng = "nat \<Rightarrow> draw \<Rightarrow> real"

subsection \<open>Data\<close>

record customer =
  cust_id :: int
  arrival_time :: real

datatype event_type = ARRIVAL | DEPARTURE

record event =
  time :: real
  etype :: event_type
  customer :: customer
  queue_id :: station

record station_stats =
  L_accum :: real
  Q_accum :: real
  Busy_accum :: real
  Arrivals :: int
  Departures :: int

definition zero_stats :: station_stats where
  "zero_stats = \<lparr>L_accum = 0, Q_accum = 0, Busy_accum = 0, Arrivals = 0, Departures = 0\<rparr>"

record state =
  clock :: real
  events :: "event list"
  queues :: "station \<Rightarrow> customer list"
  server_busy :: "station \<Rightarrow> bool"
  stats :: "station \<Rightarrow> station_stats"
  completed_count :: int
  total_response_time :: real
  last_update :: real
  cust_counter :: int
  warmup_count :: int
  is_warming_up :: bool
  steady_start_time :: real
  draws :: nat

datatype error = IndexError | ZeroDivisionError

subsection \<open>The engine\<close>

text \<open>
  \<open>schedule\<close>: \<open>self.events.append(event); self.events.sort()\<close>. Python's sort is
  stable and compares events by \<open>time\<close> only (\<open>Event.__lt__\<close>).
\<close>

definition schedule :: "event \<Rightarrow> state \<Rightarrow> state" where
  "schedule ev s = s\<lparr>events := sort_key time (events s @ [ev])\<rparr>"

text \<open>\<open>reset\<close>, called by the constructor: the empty network and the seed arrival.\<close>

definition reset :: "rng \<Rightarrow> state" where
  "reset R =
     schedule
       \<lparr>time = R 0 (Expovariate LAMBDA_SOURCE_RATE), etype = ARRIVAL,
        customer = \<lparr>cust_id = 1, arrival_time = 0\<rparr>, queue_id = Q1\<rparr>
       \<lparr>clock = 0, events = [], queues = (\<lambda>_. []), server_busy = (\<lambda>_. False),
        stats = (\<lambda>_. zero_stats), completed_count = 0, total_response_time = 0,
        last_update = 0, cust_counter = 1, warmup_count = 0, is_warming_up = True,
        steady_start_time = 0, draws = 1\<rparr>"

text \<open>One round of the loop \<open>for i in range(1, 5)\<close> of \<open>update_accumulators\<close>.\<close>

definition accumulate :: "real \<Rightarrow> station \<Rightarrow> state \<Rightarrow> state" where
  "accumulate delta i s =
     (let n = int (length (queues s i));
          st1 = (stats s i)\<lparr>L_accum := L_accum (stats s i) + real_of_int n * delta\<rparr>;
          q_len = (if server_busy s i then max 0 (n - 1) else 0);
          st2 = st1\<lparr>Q_accum := Q_accum st1 + real_of_int q_len * delta\<rparr>;
          st3 = (if server_busy s i then st2\<lparr>Busy_accum := Busy_accum st2 + delta\<rparr> else st2)
      in s\<lparr>stats := (stats s)(i := st3)\<rparr>)"

definition update_accumulators :: "state \<Rightarrow> state" where
  "update_accumulators s =
     (if is_warming_up s then s\<lparr>last_update := clock s\<rparr>
      else
        let delta = clock s - last_update s;
            s' = fold (accumulate delta) [Q1, Q2, Q3, Q4] s
        in s'\<lparr>last_update := clock s'\<rparr>)"

definition reset_stats_post_warmup :: "state \<Rightarrow> state" where
  "reset_stats_post_warmup s =
     s\<lparr>stats := (\<lambda>_. zero_stats), completed_count := 0, total_response_time := 0,
       last_update := clock s, is_warming_up := False, steady_start_time := clock s\<rparr>"

definition handle_arrival :: "rng \<Rightarrow> event \<Rightarrow> state \<Rightarrow> state" where
  "handle_arrival R ev s =
     (let q = queue_id ev;
          s1 = s\<lparr>queues := (queues s)(q := queues s q @ [customer ev])\<rparr>;
          s2 = s1\<lparr>stats := (stats s1)(q := (stats s1 q)\<lparr>Arrivals := Arrivals (stats s1 q) + 1\<rparr>)\<rparr>
      in if \<not> server_busy s2 q then
           let s3 = s2\<lparr>server_busy := (server_busy s2)(q := True)\<rparr>;
               svc_time = R (draws s3) (Expovariate (MU_RATES q));
               s4 = s3\<lparr>draws := draws s3 + 1\<rparr>
           in schedule \<lparr>time = clock s4 + svc_time, etype = DEPARTURE,
                        customer = customer ev, queue_id = q\<rparr> s4
         else s2)"

text \<open>The routing chain of \<open>handle_departure\<close>; \<open>None\<close> is the string \<open>'EXIT'\<close>.\<close>

definition next_queue :: "station \<Rightarrow> real \<Rightarrow> station option" where
  "next_queue q r =
     (case q of
        Q1 \<Rightarrow> (if r < p_1_to_2 PROBS then Some Q2 else Some Q3)
      | Q2 \<Rightarrow> Some Q4
      | Q3 \<Rightarrow> Some Q4
      | Q4 \<Rightarrow> (if r < p_4_exit PROBS then None else Some Q3))"

text \<open>\<open>handle_departure\<close>; \<open>self.queues[q].pop(0)\<close> raises IndexError on an empty queue.\<close>

definition handle_departure :: "config \<Rightarrow> rng \<Rightarrow> event \<Rightarrow> state \<Rightarrow> error + state" where
  "handle_departure cfg R ev s =
     (let q = queue_id ev in
      case queues s q of
        [] \<Rightarrow> Inl IndexError
      | c # rest \<Rightarrow>
          let s1 = s\<lparr>queues := (queues s)(q := rest)\<rparr>;
              s2 = s1\<lparr>stats := (stats s1)(q := (stats s1 q)\<lparr>Departures := Departures (stats s1 q) + 1\<rparr>)\<rparr>;
              r = R (draws s2) Random;
              s3 = s2\<lparr>draws := draws s2 + 1\<rparr>;
              s4 = (case next_queue q r of
                      None \<Rightarrow>
                        (if is_warming_up s3 then
                           let s' = s3\<lparr>warmup_count := warmup_count s3 + 1\<rparr>
                           in if warmup_count s' \<ge> WARM_UP_CUSTOMERS cfg
                              then reset_stats_post_warmup s' else s'
                         else
                           s3\<lparr>completed_count := completed_count s3 + 1,
                              total_response_time :=
                                total_response_time s3 + (clock s3 - arrival_time c)\<rparr>)
                    | Some next_q \<Rightarrow>
                        handle_arrival R
                          \<lparr>time = clock s3, etype = ARRIVAL, customer = c, queue_id = next_q\<rparr> s3)
          in Inr (case queues s4 q of
                    nxt_c # _ \<Rightarrow>
                      let s5 = s4\<lparr>server_busy := (server_busy s4)(q := True)\<rparr>;
                          svc_time = R (draws s5) (Expovariate (MU_RATES q));
                          s6 = s5\<lparr>draws := draws s5 + 1\<rparr>
                      in schedule \<lparr>time = clock s6 + svc_time, etype = DEPARTURE,
                                   customer = nxt_c, queue_id = q\<rparr> s6
                  | [] \<Rightarrow> s4\<lparr>server_busy := (server_busy s4)(q := False)\<rparr>))"

text \<open>
  \<open>step\<close>: \<open>None\<close> in the first component is the return \<open>(None, "Simulation Finished")\<close>,
  which leaves the state as it is.
\<close>

definition step :: "config \<Rightarrow> rng \<Rightarrow> state \<Rightarrow> error + (event option \<times> state)" where
  "step cfg R s =
     (case events s of
        [] \<Rightarrow> Inr (None, s)
      | ev # rest \<Rightarrow>
          if completed_count s \<ge> MAX_COMPLETED cfg then Inr (None, s)
          else
            let s1 = s\<lparr>events := rest\<rparr>;
                s2 = update_accumulators s1;
                s3 = s2\<lparr>clock := time ev\<rparr>
            in case etype ev of
                 ARRIVAL \<Rightarrow>
                   let s4 = handle_arrival R ev s3
                   in if queue_id ev = Q1 \<and> cust_id (customer ev) = cust_counter s4 then
                        let s5 = s4\<lparr>cust_counter := cust_counter s4 + 1\<rparr>;
                            nxt_time = clock s5 + R (draws s5) (Expovariate LAMBDA_SOURCE_RATE);
                            s6 = s5\<lparr>draws := draws s5 + 1\<rparr>
                        in Inr (Some ev,
                                schedule \<lparr>time = nxt_time, etype = ARRIVAL,
                                          customer = \<lparr>cust_id = cust_counter s6,
                                                      arrival_time = clock s6\<rparr>,
                                          queue_id = Q1\<rparr> s6)
                      else Inr (Some ev, s4)
               | DEPARTURE \<Rightarrow>
                   (case handle_departure cfg R ev s3 of
                      Inl e \<Rightarrow> Inl e
                    | Inr s4 \<Rightarrow> Inr (Some ev, s4)))"

text \<open>\<open>n\<close> calls of \<open>step\<close> in a row, as the step button makes them.\<close>

fun step_n :: "nat \<Rightarrow> config \<Rightarrow> rng \<Rightarrow> state \<Rightarrow> error + state" where
  "step_n 0 cfg R s = Inr s"
| "step_n (Suc n) cfg R s =
     (case step cfg R s of
        Inl e \<Rightarrow> Inl e
      | Inr (_, s') \<Rightarrow> step_n n cfg R s')"

text \<open>
  The loop of \<open>run_instant\<close> and \<open>finish_and_compare\<close>:
  \<open>while completed_count < MAX_COMPLETED: if not events: break; step()\<close>.
  The loop may run forever, so it carries fuel (\<open>None\<close>: out of fuel); the events that
  \<open>step\<close> returned are collected in order.
\<close>

fun run :: "nat \<Rightarrow> config \<Rightarrow> rng \<Rightarrow> event list \<Rightarrow> state \<Rightarrow> (error + event list \<times> state) option" where
  "run 0 cfg R tr s = None"
| "run (Suc n) cfg R tr s =
     (if completed_count s < MAX_COMPLETED cfg then
        (if events s = [] then Some (Inr (tr, s))
         else case step cfg R s of
                Inl e \<Rightarrow> Some (Inl e)
              | Inr (None, s') \<Rightarrow> run n cfg R tr s'
              | Inr (Some ev, s') \<Rightarrow> run n cfg R (tr @ [ev]) s')
      else Some (Inr (tr, s)))"

text \<open>The states the engine can be in between two calls of \<open>step\<close>.\<close>

inductive reachable :: "config \<Rightarrow> rng \<Rightarrow> state \<Rightarrow> bool" for cfg :: config and R :: rng where
  reachable_reset: "reachable cfg R (reset R)"
| reachable_step: "reachable cfg R s \<Longrightarrow> step cfg R s = Inr (ev, s') \<Longrightarrow> reachable cfg R s'"

subsection \<open>The deterministic scenario\<close>

text \<open>
  The stubbed random source: interarrival draws (rate \<open>LAMBDA_SOURCE_RATE\<close>) are 1.0,
  service draws are 0.5, uniform draws are 0.2.
\<close>

definition stub_rng :: rng where
  "stub_rng n d =
     (case d of
        Expovariate rate \<Rightarrow> (if rate = LAMBDA_SOURCE_RATE then 1 else 1 / 2)
      | Random \<Rightarrow> 1 / 5)"

definition scenario_config :: config where
  "scenario_config = \<lparr>MAX_COMPLETED = 5, WARM_UP_CUSTOMERS = 0\<rparr>"

text \<open>The same run with one customer to discard.\<close>

definition discard_one_config :: config where
  "discard_one_config = \<lparr>MAX_COMPLETED = 5, WARM_UP_CUSTOMERS = 1\<rparr>"

subsection \<open>The analytical model\<close>

text \<open>
  Part 2 of \<open>finish_and_compare\<close>. The program reads \<open>LAMBDA_SOURCE_RATE\<close> and
  \<open>MU_RATES\<close>; the source rate and the service rates are parameters here. Python's
  \<open>/\<close> raises ZeroDivisionError on a zero divisor.
\<close>

record metrics =
  L_val :: real
  Lq_val :: real
  W_val :: real
  Wq_val :: real
  Rho :: real

text \<open>The body of the loop \<open>for i in range(1, 5)\<close> for one station.\<close>

definition station_metrics :: "real \<Rightarrow> real \<Rightarrow> error + metrics" where
  "station_metrics l m =
     (if m = 0 then Inl ZeroDivisionError
      else
        let rho = l / m in
        if 1 - rho = 0 then Inl ZeroDivisionError
        else
          let L = rho / (1 - rho);
              Lq = L - rho in
          if m - l = 0 then Inl ZeroDivisionError
          else
            let W = 1 / (m - l);
                Wq = W - 1 / m
            in Inr \<lparr>L_val = L, Lq_val = Lq, W_val = W, Wq_val = Wq, Rho = rho\<rparr>)"

definition eff_lam :: "real \<Rightarrow> station \<Rightarrow> real" where
  "eff_lam lam i =
     (let L1 = lam;
          L2 = (4 / 10) * L1;
          L4 = L1 / (9 / 10);
          L3 = (6 / 10) * L1 + (1 / 10) * L4
      in case i of Q1 \<Rightarrow> L1 | Q2 \<Rightarrow> L2 | Q3 \<Rightarrow> L3 | Q4 \<Rightarrow> L4)"

fun ana_loop ::
  "(station \<Rightarrow> real) \<Rightarrow> (station \<Rightarrow> real) \<Rightarrow> station list \<Rightarrow> (station \<times> metrics) list \<times> real \<Rightarrow>
     error + (station \<times> metrics) list \<times> real" where
  "ana_loop el mu [] acc = Inr acc"
| "ana_loop el mu (i # is) (ana_metrics, total_L_ana) =
     (case station_metrics (el i) (mu i) of
        Inl e \<Rightarrow> Inl e
      | Inr mt \<Rightarrow> ana_loop el mu is (ana_metrics @ [(i, mt)], total_L_ana + L_val mt))"

text \<open>The result: \<open>ana_metrics\<close>, \<open>total_L_ana\<close> and \<open>sys_R_ana\<close>.\<close>

definition analytical ::
  "real \<Rightarrow> (station \<Rightarrow> real) \<Rightarrow> error + (station \<times> metrics) list \<times> real \<times> real" where
  "analytical lam mu =
     (case ana_loop (eff_lam lam) mu [Q1, Q2, Q3, Q4] ([], 0) of
        Inl e \<Rightarrow> Inl e
      | Inr (ana_metrics, total_L_ana) \<Rightarrow>
          if lam = 0 then Inl ZeroDivisionError
          else Inr (ana_metrics, total_L_ana, total_L_ana / lam))"

text \<open>The state of the deterministic scenario after \<open>n\<close> calls of \<open>step\<close>.\<close>

definition scenario_state :: "nat \<Rightarrow> state" where
  "scenario_state n =
     (case step_n n scenario_config stub_rng (reset stub_rng) of
        Inr s \<Rightarrow> s
      | Inl e \<Rightarrow> reset stub_rng)"

text \<open>What the trace shows of an event: time, type, customer id, station.\<close>

definition shown :: "event \<Rightarrow> real \<times> event_type \<times> int \<times> station" where
  "shown e = (time e, etype e, cust_id (customer e), queue_id e)"

subsection \<open>The phases of a step, and the predicates of the proofs\<close>

text \<open>
  \<open>step\<close> and \<open>handle_departure\<close> are cut into their phases, so that each invariant is
  proved phase by phase; \<open>step_phases\<close> and \<open>handle_departure_phases\<close> below show that
  the functions are the compositions of their phases.
\<close>

definition advance :: "event \<Rightarrow> event list \<Rightarrow> state \<Rightarrow> state" where
  "advance ev rest s = (update_accumulators (s\<lparr>events := rest\<rparr>))\<lparr>clock := time ev\<rparr>"

definition schedule_next_external :: "rng \<Rightarrow> state \<Rightarrow> state" where
  "schedule_next_external R s4 =
     schedule \<lparr>time = clock s4 + R (draws s4) (Expovariate LAMBDA_SOURCE_RATE), etype = ARRIVAL,
               customer = \<lparr>cust_id = cust_counter s4 + 1, arrival_time = clock s4\<rparr>,
               queue_id = Q1\<rparr>
       (s4\<lparr>cust_counter := cust_counter s4 + 1, draws := draws s4 + 1\<rparr>)"

definition popped :: "station \<Rightarrow> customer list \<Rightarrow> state \<Rightarrow> state" where
  "popped q rest s =
     s\<lparr>queues := (queues s)(q := rest),
       stats := (stats s)(q := (stats s q)\<lparr>Departures := Departures (stats s q) + 1\<rparr>)\<rparr>"

definition leave_network :: "config \<Rightarrow> customer \<Rightarrow> state \<Rightarrow> state" where
  "leave_network cfg c s3 =
     (if is_warming_up s3 then
        (if warmup_count s3 + 1 \<ge> WARM_UP_CUSTOMERS cfg
         then reset_stats_post_warmup (s3\<lparr>warmup_count := warmup_count s3 + 1\<rparr>)
         else s3\<lparr>warmup_count := warmup_count s3 + 1\<rparr>)
      else s3\<lparr>completed_count := completed_count s3 + 1,
              total_response_time := total_response_time s3 + (clock s3 - arrival_time c)\<rparr>)"

definition route_customer :: "config \<Rightarrow> rng \<Rightarrow> station \<Rightarrow> customer \<Rightarrow> state \<Rightarrow> state" where
  "route_customer cfg R q c s2 =
     (case next_queue q (R (draws s2) Random) of
        None \<Rightarrow> leave_network cfg c (s2\<lparr>draws := draws s2 + 1\<rparr>)
      | Some next_q \<Rightarrow>
          handle_arrival R \<lparr>time = clock s2, etype = ARRIVAL, customer = c, queue_id = next_q\<rparr>
            (s2\<lparr>draws := draws s2 + 1\<rparr>))"

definition start_next :: "rng \<Rightarrow> station \<Rightarrow> state \<Rightarrow> state" where
  "start_next R q s4 =
     (case queues s4 q of
        nxt_c # _ \<Rightarrow>
          schedule \<lparr>time = clock s4 + R (draws s4) (Expovariate (MU_RATES q)), etype = DEPARTURE,
                    customer = nxt_c, queue_id = q\<rparr>
            (s4\<lparr>server_busy := (server_busy s4)(q := True), draws := draws s4 + 1\<rparr>)
      | [] \<Rightarrow> s4\<lparr>server_busy := (server_busy s4)(q := False)\<rparr>)"

definition is_departure_at :: "station \<Rightarrow> event \<Rightarrow> bool" where
  "is_departure_at st e \<longleftrightarrow> etype e = DEPARTURE \<and> queue_id e = st"

definition is_arrival :: "event \<Rightarrow> bool" where
  "is_arrival e \<longleftrightarrow> etype e = ARRIVAL"

text \<open>
  A station is busy exactly when its queue is not empty, and the departures pending for
  it are the one of its head customer when it is busy and none otherwise.
\<close>

definition station_inv :: "state \<Rightarrow> station \<Rightarrow> bool" where
  "station_inv s st \<longleftrightarrow>
     (server_busy s st \<longleftrightarrow> queues s st \<noteq> []) \<and>
     map customer (filter (is_departure_at st) (events s)) =
       (if server_busy s st then [hd (queues s st)] else [])"

text \<open>The only arrival pending is the one of the next external customer, at station 1.\<close>

definition arrival_inv :: "state \<Rightarrow> bool" where
  "arrival_inv s \<longleftrightarrow>
     map (\<lambda>e. (queue_id e, cust_id (customer e))) (filter is_arrival (events s)) =
       [(Q1, cust_counter s)]"

text \<open>The event list is ordered by time and no pending event lies before the clock.\<close>

definition time_inv :: "state \<Rightarrow> bool" where
  "time_inv s \<longleftrightarrow>
     sorted (map time (events s)) \<and> list_all (\<lambda>e. clock s \<le> time e) (events s)"

text \<open>Arrivals minus departures minus the queue length of a station.\<close>

definition imbalance :: "state \<Rightarrow> station \<Rightarrow> int" where
  "imbalance s st =
     Arrivals (stats s st) - Departures (stats s st) - int (length (queues s st))"

definition areas_zero :: "state \<Rightarrow> station \<Rightarrow> bool" where
  "areas_zero s st \<longleftrightarrow>
     L_accum (stats s st) = 0 \<and> Q_accum (stats s st) = 0 \<and> Busy_accum (stats s st) = 0"

text \<open>
  The state of the engine, run on the stubbed random source with the constants of the
  source, right after the \<open>k\<close>-th customer has left the network during the warm-up:
  customer \<open>k + 1\<close> is in service at station 2 and customer \<open>k + 2\<close> is about to arrive.
\<close>

definition warm_phase :: "nat \<Rightarrow> state \<Rightarrow> bool" where
  "warm_phase k s \<longleftrightarrow>
     clock s = real k + 3 / 2 \<and>
     events s =
       [\<lparr>time = real k + 2, etype = ARRIVAL,
         customer = \<lparr>cust_id = int k + 2, arrival_time = real k + 1\<rparr>, queue_id = Q1\<rparr>,
        \<lparr>time = real k + 2, etype = DEPARTURE,
         customer = \<lparr>cust_id = int k + 1, arrival_time = real k\<rparr>, queue_id = Q2\<rparr>] \<and>
     queues s Q1 = [] \<and> queues s Q2 = [\<lparr>cust_id = int k + 1, arrival_time = real k\<rparr>] \<and>
     queues s Q3 = [] \<and> queues s Q4 = [] \<and>
     \<not> server_busy s Q1 \<and> server_busy s Q2 \<and> \<not> server_busy s Q3 \<and> \<not> server_busy s Q4 \<and>
     cust_counter s = int k + 2 \<and> warmup_count s = int k \<and> completed_count s = 0 \<and>
     is_warming_up s"

section \<open>Invariants of the engine\<close>

subsection \<open>What each operation reads and writes\<close>

lemma sort_key_short: "length xs \<le> Suc 0 \<Longrightarrow> sort_key f xs = xs"
  by (cases xs) auto

lemma filter_schedule:
  "filter P (events (schedule ev s)) =
     sort_key time (filter P (events s) @ (if P ev then [ev] else []))"
  by (simp add: schedule_def filter_sort)

lemma schedule_simps [simp]:
  "clock (schedule ev s) = clock s"
  "queues (schedule ev s) = queues s"
  "server_busy (schedule ev s) = server_busy s"
  "stats (schedule ev s) = stats s"
  "completed_count (schedule ev s) = completed_count s"
  "total_response_time (schedule ev s) = total_response_time s"
  "last_update (schedule ev s) = last_update s"
  "cust_counter (schedule ev s) = cust_counter s"
  "warmup_count (schedule ev s) = warmup_count s"
  "is_warming_up (schedule ev s) = is_warming_up s"
  "steady_start_time (schedule ev s) = steady_start_time s"
  "draws (schedule ev s) = draws s"
  by (simp_all add: schedule_def)

lemma handle_arrival_simps [simp]:
  "clock (handle_arrival R ev s) = clock s"
  "queues (handle_arrival R ev s) =
     (queues s)(queue_id ev := queues s (queue_id ev) @ [customer ev])"
  "stats (handle_arrival R ev s) =
     (stats s)(queue_id ev :=
        (stats s (queue_id ev))\<lparr>Arrivals := Arrivals (stats s (queue_id ev)) + 1\<rparr>)"
  "completed_count (handle_arrival R ev s) = completed_count s"
  "total_response_time (handle_arrival R ev s) = total_response_time s"
  "last_update (handle_arrival R ev s) = last_update s"
  "cust_counter (handle_arrival R ev s) = cust_counter s"
  "warmup_count (handle_arrival R ev s) = warmup_count s"
  "is_warming_up (handle_arrival R ev s) = is_warming_up s"
  "steady_start_time (handle_arrival R ev s) = steady_start_time s"
  by (simp_all add: handle_arrival_def Let_def)

lemma handle_arrival_busy [simp]:
  "server_busy (handle_arrival R ev s) = (server_busy s)(queue_id ev := True)"
  by (auto simp: handle_arrival_def Let_def fun_eq_iff)

lemma handle_arrival_events:
  "events (handle_arrival R ev s) =
     (if server_busy s (queue_id ev) then events s
      else events (schedule \<lparr>time = clock s + R (draws s) (Expovariate (MU_RATES (queue_id ev))),
                    etype = DEPARTURE, customer = customer ev, queue_id = queue_id ev\<rparr> s))"
  by (simp add: handle_arrival_def Let_def schedule_def)

lemma accumulate_simps [simp]:
  "clock (accumulate d i s) = clock s"
  "events (accumulate d i s) = events s"
  "queues (accumulate d i s) = queues s"
  "server_busy (accumulate d i s) = server_busy s"
  "completed_count (accumulate d i s) = completed_count s"
  "total_response_time (accumulate d i s) = total_response_time s"
  "last_update (accumulate d i s) = last_update s"
  "cust_counter (accumulate d i s) = cust_counter s"
  "warmup_count (accumulate d i s) = warmup_count s"
  "is_warming_up (accumulate d i s) = is_warming_up s"
  "steady_start_time (accumulate d i s) = steady_start_time s"
  "draws (accumulate d i s) = draws s"
  by (simp_all add: accumulate_def Let_def)

lemma accumulate_stats:
  "stats (accumulate d i s) st =
     (if st = i then
        \<lparr>L_accum = L_accum (stats s i) + real_of_int (int (length (queues s i))) * d,
         Q_accum = Q_accum (stats s i) +
           real_of_int (if server_busy s i then max 0 (int (length (queues s i)) - 1) else 0) * d,
         Busy_accum = (if server_busy s i then Busy_accum (stats s i) + d else Busy_accum (stats s i)),
         Arrivals = Arrivals (stats s i), Departures = Departures (stats s i)\<rparr>
      else stats s st)"
  by (simp add: accumulate_def Let_def)

lemma update_accumulators_simps [simp]:
  "clock (update_accumulators s) = clock s"
  "events (update_accumulators s) = events s"
  "queues (update_accumulators s) = queues s"
  "server_busy (update_accumulators s) = server_busy s"
  "completed_count (update_accumulators s) = completed_count s"
  "total_response_time (update_accumulators s) = total_response_time s"
  "last_update (update_accumulators s) = clock s"
  "cust_counter (update_accumulators s) = cust_counter s"
  "warmup_count (update_accumulators s) = warmup_count s"
  "is_warming_up (update_accumulators s) = is_warming_up s"
  "steady_start_time (update_accumulators s) = steady_start_time s"
  "draws (update_accumulators s) = draws s"
  by (simp_all add: update_accumulators_def Let_def)

text \<open>
  What \<open>update_accumulators\<close> adds: the interval it integrates over is
  \<open>clock - last_update\<close> of the state it is called in.
\<close>

lemma update_accumulators_stats:
  "stats (update_accumulators s) st =
     (if is_warming_up s then stats s st
      else
        \<lparr>L_accum = L_accum (stats s st) +
           real_of_int (int (length (queues s st))) * (clock s - last_update s),
         Q_accum = Q_accum (stats s st) +
           real_of_int (if server_busy s st then max 0 (int (length (queues s st)) - 1) else 0) *
             (clock s - last_update s),
         Busy_accum = (if server_busy s st then Busy_accum (stats s st) + (clock s - last_update s)
                       else Busy_accum (stats s st)),
         Arrivals = Arrivals (stats s st), Departures = Departures (stats s st)\<rparr>)"
  by (cases st) (simp_all add: update_accumulators_def Let_def accumulate_stats)

lemma advance_simps [simp]:
  "clock (advance ev rest s) = time ev"
  "events (advance ev rest s) = rest"
  "queues (advance ev rest s) = queues s"
  "server_busy (advance ev rest s) = server_busy s"
  "completed_count (advance ev rest s) = completed_count s"
  "total_response_time (advance ev rest s) = total_response_time s"
  "last_update (advance ev rest s) = clock s"
  "cust_counter (advance ev rest s) = cust_counter s"
  "warmup_count (advance ev rest s) = warmup_count s"
  "is_warming_up (advance ev rest s) = is_warming_up s"
  "steady_start_time (advance ev rest s) = steady_start_time s"
  "draws (advance ev rest s) = draws s"
  by (simp_all add: advance_def)

lemma advance_stats: "stats (advance ev rest s) st = stats (update_accumulators s) st"
  by (simp add: advance_def update_accumulators_stats)

lemma schedule_next_external_simps [simp]:
  "clock (schedule_next_external R s) = clock s"
  "queues (schedule_next_external R s) = queues s"
  "server_busy (schedule_next_external R s) = server_busy s"
  "stats (schedule_next_external R s) = stats s"
  "completed_count (schedule_next_external R s) = completed_count s"
  "total_response_time (schedule_next_external R s) = total_response_time s"
  "last_update (schedule_next_external R s) = last_update s"
  "cust_counter (schedule_next_external R s) = cust_counter s + 1"
  "warmup_count (schedule_next_external R s) = warmup_count s"
  "is_warming_up (schedule_next_external R s) = is_warming_up s"
  "steady_start_time (schedule_next_external R s) = steady_start_time s"
  by (simp_all add: schedule_next_external_def)

lemma schedule_next_external_events:
  "events (schedule_next_external R s) =
     events (schedule \<lparr>time = clock s + R (draws s) (Expovariate LAMBDA_SOURCE_RATE),
               etype = ARRIVAL,
               customer = \<lparr>cust_id = cust_counter s + 1, arrival_time = clock s\<rparr>,
               queue_id = Q1\<rparr> s)"
  by (simp add: schedule_next_external_def schedule_def)

lemma popped_simps [simp]:
  "clock (popped q rest s) = clock s"
  "events (popped q rest s) = events s"
  "queues (popped q rest s) = (queues s)(q := rest)"
  "server_busy (popped q rest s) = server_busy s"
  "stats (popped q rest s) =
     (stats s)(q := (stats s q)\<lparr>Departures := Departures (stats s q) + 1\<rparr>)"
  "completed_count (popped q rest s) = completed_count s"
  "total_response_time (popped q rest s) = total_response_time s"
  "last_update (popped q rest s) = last_update s"
  "cust_counter (popped q rest s) = cust_counter s"
  "warmup_count (popped q rest s) = warmup_count s"
  "is_warming_up (popped q rest s) = is_warming_up s"
  "steady_start_time (popped q rest s) = steady_start_time s"
  "draws (popped q rest s) = draws s"
  by (simp_all add: popped_def)

lemma leave_network_simps [simp]:
  "clock (leave_network cfg c s) = clock s"
  "events (leave_network cfg c s) = events s"
  "queues (leave_network cfg c s) = queues s"
  "server_busy (leave_network cfg c s) = server_busy s"
  "cust_counter (leave_network cfg c s) = cust_counter s"
  "draws (leave_network cfg c s) = draws s"
  by (simp_all add: leave_network_def reset_stats_post_warmup_def)

lemma route_customer_simps [simp]:
  "clock (route_customer cfg R q c s) = clock s"
  "cust_counter (route_customer cfg R q c s) = cust_counter s"
  by (simp_all add: route_customer_def split: option.splits)

lemma start_next_simps [simp]:
  "clock (start_next R q s) = clock s"
  "queues (start_next R q s) = queues s"
  "stats (start_next R q s) = stats s"
  "completed_count (start_next R q s) = completed_count s"
  "total_response_time (start_next R q s) = total_response_time s"
  "last_update (start_next R q s) = last_update s"
  "cust_counter (start_next R q s) = cust_counter s"
  "warmup_count (start_next R q s) = warmup_count s"
  "is_warming_up (start_next R q s) = is_warming_up s"
  "steady_start_time (start_next R q s) = steady_start_time s"
  by (simp_all add: start_next_def split: list.splits)

lemma start_next_busy:
  "server_busy (start_next R q s) = (server_busy s)(q := queues s q \<noteq> [])"
  by (simp add: start_next_def split: list.splits)

lemma start_next_events:
  "events (start_next R q s) =
     (case queues s q of
        [] \<Rightarrow> events s
      | nxt_c # _ \<Rightarrow>
          events (schedule \<lparr>time = clock s + R (draws s) (Expovariate (MU_RATES q)),
                    etype = DEPARTURE, customer = nxt_c, queue_id = q\<rparr> s))"
  by (simp add: start_next_def schedule_def split: list.splits)

lemma next_queue_other: "next_queue q r \<noteq> Some q"
  by (cases q) (simp_all add: next_queue_def)

lemma handle_departure_phases:
  "handle_departure cfg R ev s =
     (case queues s (queue_id ev) of
        [] \<Rightarrow> Inl IndexError
      | c # rest \<Rightarrow>
          Inr (start_next R (queue_id ev)
                 (route_customer cfg R (queue_id ev) c (popped (queue_id ev) rest s))))"
  unfolding handle_departure_def popped_def route_customer_def leave_network_def
      start_next_def Let_def
  by (simp cong: list.case_cong option.case_cong if_cong)

lemma step_phases:
  "step cfg R s =
     (case events s of
        [] \<Rightarrow> Inr (None, s)
      | ev # rest \<Rightarrow>
          if completed_count s \<ge> MAX_COMPLETED cfg then Inr (None, s)
          else case etype ev of
            ARRIVAL \<Rightarrow>
              Inr (Some ev,
                if queue_id ev = Q1 \<and> cust_id (customer ev) = cust_counter s
                then schedule_next_external R (handle_arrival R ev (advance ev rest s))
                else handle_arrival R ev (advance ev rest s))
          | DEPARTURE \<Rightarrow>
              (case handle_departure cfg R ev (advance ev rest s) of
                 Inl e \<Rightarrow> Inl e
               | Inr s4 \<Rightarrow> Inr (Some ev, s4)))"
  by (auto simp: step_def advance_def [symmetric] schedule_next_external_def Let_def
      split: list.splits event_type.splits sum.splits)

text \<open>The cases of a step that returns, as an elimination rule.\<close>

lemma step_cases [consumes 1, case_names Finished Internal External Departure]:
  assumes "step cfg R s = Inr (r, s')"
  obtains
    (Finished) "r = None" "s' = s" "events s = [] \<or> MAX_COMPLETED cfg \<le> completed_count s"
  | (Internal) ev rest where "events s = ev # rest" "completed_count s < MAX_COMPLETED cfg"
      "etype ev = ARRIVAL" "r = Some ev"
      "\<not> (queue_id ev = Q1 \<and> cust_id (customer ev) = cust_counter s)"
      "s' = handle_arrival R ev (advance ev rest s)"
  | (External) ev rest where "events s = ev # rest" "completed_count s < MAX_COMPLETED cfg"
      "etype ev = ARRIVAL" "r = Some ev"
      "queue_id ev = Q1" "cust_id (customer ev) = cust_counter s"
      "s' = schedule_next_external R (handle_arrival R ev (advance ev rest s))"
  | (Departure) ev rest c qrest where "events s = ev # rest"
      "completed_count s < MAX_COMPLETED cfg"
      "etype ev = DEPARTURE" "r = Some ev" "queues s (queue_id ev) = c # qrest"
      "s' = start_next R (queue_id ev)
              (route_customer cfg R (queue_id ev) c
                 (popped (queue_id ev) qrest (advance ev rest s)))"
  using assms
  by (auto simp: step_phases handle_departure_phases
      split: list.splits if_splits event_type.splits sum.splits)

subsection \<open>Busy servers and pending events\<close>

lemma station_inv_short:
  assumes "station_inv s st"
  shows "length (filter (is_departure_at st) (events s)) \<le> Suc 0"
proof -
  from assms have "length (map customer (filter (is_departure_at st) (events s))) \<le> Suc 0"
    by (simp add: station_inv_def)
  then show ?thesis by simp
qed

lemma arrival_inv_short:
  assumes "arrival_inv s"
  shows "length (filter is_arrival (events s)) \<le> Suc 0"
proof -
  from assms have
    "length (map (\<lambda>e. (queue_id e, cust_id (customer e))) (filter is_arrival (events s))) \<le> Suc 0"
    by (simp add: arrival_inv_def)
  then show ?thesis by simp
qed

lemma station_inv_eqI:
  assumes "station_inv s st"
    and "server_busy s' st = server_busy s st"
    and "queues s' st = queues s st"
    and "filter (is_departure_at st) (events s') = filter (is_departure_at st) (events s)"
  shows "station_inv s' st"
  using assms by (simp add: station_inv_def)

lemma arrival_inv_eqI:
  assumes "arrival_inv s"
    and "cust_counter s' = cust_counter s"
    and "filter is_arrival (events s') = filter is_arrival (events s)"
  shows "arrival_inv s'"
  using assms by (simp add: arrival_inv_def)

lemma filter_schedule_other:
  assumes "\<not> P ev" and "length (filter P (events s)) \<le> Suc 0"
  shows "filter P (events (schedule ev s)) = filter P (events s)"
  using assms by (simp add: filter_schedule sort_key_short)

lemma handle_arrival_station_inv:
  assumes "station_inv s st"
  shows "station_inv (handle_arrival R ev s) st"
proof (cases "st = queue_id ev")
  case False
  then have "\<not> is_departure_at st
      \<lparr>time = t, etype = DEPARTURE, customer = c, queue_id = queue_id ev\<rparr>" for t c
    by (simp add: is_departure_at_def)
  with False assms station_inv_short [OF assms] show ?thesis
    by (auto simp: station_inv_def handle_arrival_events filter_schedule_other)
next
  case True
  show ?thesis
  proof (cases "server_busy s st")
    case True
    with \<open>st = queue_id ev\<close> assms show ?thesis
      by (auto simp: station_inv_def handle_arrival_events)
  next
    case False
    with \<open>st = queue_id ev\<close> assms show ?thesis
      by (auto simp: station_inv_def handle_arrival_events filter_schedule is_departure_at_def)
  qed
qed

lemma handle_arrival_filter_other:
  assumes "\<And>t c. \<not> P \<lparr>time = t, etype = DEPARTURE, customer = c, queue_id = queue_id ev\<rparr>"
    and "length (filter P (events s)) \<le> Suc 0"
  shows "filter P (events (handle_arrival R ev s)) = filter P (events s)"
  using assms by (simp add: handle_arrival_events filter_schedule_other)

lemma handle_arrival_arrival_inv:
  assumes "arrival_inv s"
  shows "arrival_inv (handle_arrival R ev s)"
  using assms arrival_inv_short [OF assms]
  by (auto intro!: arrival_inv_eqI [OF assms] handle_arrival_filter_other simp: is_arrival_def)

lemma route_customer_station_inv:
  assumes "station_inv s st"
  shows "station_inv (route_customer cfg R q c s) st"
proof (cases "next_queue q (R (draws s) Random)")
  case None
  with assms show ?thesis
    by (auto simp: route_customer_def intro: station_inv_eqI)
next
  case (Some next_q)
  from assms have "station_inv (s\<lparr>draws := draws s + 1\<rparr>) st"
    by (rule station_inv_eqI) simp_all
  with Some show ?thesis
    by (simp add: route_customer_def handle_arrival_station_inv)
qed

lemma route_customer_arrival_inv:
  assumes "arrival_inv s"
  shows "arrival_inv (route_customer cfg R q c s)"
proof (cases "next_queue q (R (draws s) Random)")
  case None
  with assms show ?thesis
    by (auto simp: route_customer_def intro: arrival_inv_eqI)
next
  case (Some next_q)
  from assms have "arrival_inv (s\<lparr>draws := draws s + 1\<rparr>)"
    by (rule arrival_inv_eqI) simp_all
  with Some show ?thesis
    by (simp add: route_customer_def handle_arrival_arrival_inv)
qed

text \<open>
  Routing leaves the departing station alone: its queue is the same and no departure
  is scheduled for it.
\<close>

lemma route_customer_same_station:
  assumes "filter (is_departure_at q) (events s) = []"
  shows "queues (route_customer cfg R q c s) q = queues s q \<and>
         filter (is_departure_at q) (events (route_customer cfg R q c s)) = []"
proof (cases "next_queue q (R (draws s) Random)")
  case None
  with assms show ?thesis
    by (simp add: route_customer_def)
next
  case (Some next_q)
  with next_queue_other [of q "R (draws s) Random"] have "next_q \<noteq> q"
    by auto
  with Some assms show ?thesis
    by (simp add: route_customer_def handle_arrival_filter_other is_departure_at_def)
qed

lemma start_next_station_inv:
  assumes "filter (is_departure_at q) (events s) = []"
    and "st \<noteq> q \<Longrightarrow> station_inv s st"
  shows "station_inv (start_next R q s) st"
proof (cases "st = q")
  case True
  with assms(1) show ?thesis
    by (auto simp: station_inv_def start_next_busy start_next_events filter_schedule
        is_departure_at_def split: list.splits)
next
  case False
  with assms(2) have inv: "station_inv s st"
    by simp
  from False have "\<not> is_departure_at st
      \<lparr>time = t, etype = DEPARTURE, customer = c, queue_id = q\<rparr>" for t c
    by (auto simp: is_departure_at_def)
  with False station_inv_short [OF inv] show ?thesis
    by (auto intro!: station_inv_eqI [OF inv]
        simp: start_next_busy start_next_events filter_schedule_other split: list.splits)
qed

lemma start_next_arrival_inv:
  assumes "arrival_inv s"
  shows "arrival_inv (start_next R q s)"
  using arrival_inv_short [OF assms]
  by (auto intro!: arrival_inv_eqI [OF assms]
      simp: start_next_events filter_schedule_other is_arrival_def split: list.splits)

lemma schedule_next_external_station_inv:
  assumes "station_inv s st"
  shows "station_inv (schedule_next_external R s) st"
  using station_inv_short [OF assms]
  by (auto intro!: station_inv_eqI [OF assms]
      simp: schedule_next_external_events filter_schedule_other is_departure_at_def)

lemma schedule_next_external_arrival_inv:
  assumes "filter is_arrival (events s) = []"
  shows "arrival_inv (schedule_next_external R s)"
  using assms
  by (simp add: arrival_inv_def schedule_next_external_events filter_schedule is_arrival_def)

text \<open>What the invariants say about the event that \<open>step\<close> pops.\<close>

lemma popped_departure:
  assumes "station_inv s (queue_id ev)" and "events s = ev # rest" and "etype ev = DEPARTURE"
  shows "server_busy s (queue_id ev) \<and> queues s (queue_id ev) \<noteq> [] \<and>
         customer ev = hd (queues s (queue_id ev)) \<and>
         filter (is_departure_at (queue_id ev)) rest = []"
  using assms by (auto simp: station_inv_def is_departure_at_def split: if_splits)

lemma popped_arrival:
  assumes "arrival_inv s" and "events s = ev # rest" and "etype ev = ARRIVAL"
  shows "queue_id ev = Q1 \<and> cust_id (customer ev) = cust_counter s \<and>
         filter is_arrival rest = []"
  using assms by (auto simp: arrival_inv_def is_arrival_def)

lemma advance_station_inv:
  assumes "station_inv s st" and "events s = ev # rest" and "\<not> is_departure_at st ev"
  shows "station_inv (advance ev rest s) st"
  using assms by (auto intro!: station_inv_eqI [OF assms(1)])

lemma advance_arrival_inv:
  assumes "arrival_inv s" and "events s = ev # rest" and "etype ev = DEPARTURE"
  shows "arrival_inv (advance ev rest s)"
  using assms by (auto intro!: arrival_inv_eqI [OF assms(1)] simp: is_arrival_def)

lemma popped_station_inv:
  assumes "station_inv s st" and "st \<noteq> q"
  shows "station_inv (popped q rest s) st"
  using assms by (auto intro!: station_inv_eqI [OF assms(1)])

lemma popped_arrival_inv:
  assumes "arrival_inv s"
  shows "arrival_inv (popped q rest s)"
  by (rule arrival_inv_eqI [OF assms]) simp_all

lemma step_struct_inv:
  assumes st: "\<And>st. station_inv s st" and ar: "arrival_inv s"
    and step: "step cfg R s = Inr (r, s')"
  shows "station_inv s' st \<and> arrival_inv s'"
  using step
proof (cases rule: step_cases)
  case Finished
  with st ar show ?thesis by simp
next
  case (Internal ev rest)
  with popped_arrival [OF ar] show ?thesis by simp
next
  case (External ev rest)
  from External have nd: "\<not> is_departure_at st ev"
    by (simp add: is_departure_at_def)
  have "station_inv (advance ev rest s) st"
    using st External(1) nd by (rule advance_station_inv)
  then have 1: "station_inv s' st"
    unfolding External
    by (intro schedule_next_external_station_inv handle_arrival_station_inv)
  from popped_arrival [OF ar External(1,3)] have "filter is_arrival rest = []"
    by simp
  then have "filter is_arrival (events (handle_arrival R ev (advance ev rest s))) = []"
    by (simp add: handle_arrival_filter_other is_arrival_def)
  then have "arrival_inv s'"
    unfolding External by (rule schedule_next_external_arrival_inv)
  with 1 show ?thesis by simp
next
  case (Departure ev rest c qrest)
  let ?q = "queue_id ev"
  let ?s2 = "popped ?q qrest (advance ev rest s)"
  let ?s4 = "route_customer cfg R ?q c ?s2"
  from popped_departure [OF st Departure(1,3)]
  have "filter (is_departure_at ?q) (events ?s2) = []"
    by simp
  then have same: "filter (is_departure_at ?q) (events ?s4) = []"
    using route_customer_same_station by blast
  have other: "station_inv ?s4 st" if "st \<noteq> ?q"
  proof -
    from that have "\<not> is_departure_at st ev"
      by (simp add: is_departure_at_def)
    with st Departure(1) have "station_inv (advance ev rest s) st"
      by (rule advance_station_inv)
    with that show ?thesis
      by (intro route_customer_station_inv popped_station_inv)
  qed
  from same other have 1: "station_inv s' st"
    unfolding Departure by (rule start_next_station_inv)
  from ar Departure(1,3) have "arrival_inv (advance ev rest s)"
    by (rule advance_arrival_inv)
  then have "arrival_inv s'"
    unfolding Departure
    by (intro start_next_arrival_inv route_customer_arrival_inv popped_arrival_inv)
  with 1 show ?thesis by simp
qed

lemma reset_struct_inv: "station_inv (reset R) st \<and> arrival_inv (reset R)"
  by (simp add: reset_def schedule_def station_inv_def arrival_inv_def is_departure_at_def
      is_arrival_def)

lemma reachable_struct_inv:
  assumes "reachable cfg R s"
  shows "station_inv s st \<and> arrival_inv s"
  using assms
proof (induction arbitrary: st)
  case reachable_reset
  show ?case by (rule reset_struct_inv)
next
  case (reachable_step s ev s')
  then show ?case
    using step_struct_inv [of s cfg R ev s' st] by blast
qed

text \<open>In a reachable state \<open>step\<close> raises no error.\<close>

lemma reachable_step_returns:
  assumes "reachable cfg R s"
  shows "\<exists>r s'. step cfg R s = Inr (r, s')"
proof (cases "events s")
  case Nil
  then show ?thesis by (simp add: step_phases)
next
  case (Cons ev rest)
  show ?thesis
  proof (cases "etype ev")
    case ARRIVAL
    with Cons show ?thesis by (simp add: step_phases)
  next
    case DEPARTURE
    from reachable_struct_inv [OF assms] have "station_inv s (queue_id ev)"
      by simp
    from popped_departure [OF this Cons DEPARTURE] have "queues s (queue_id ev) \<noteq> []"
      by simp
    with Cons DEPARTURE show ?thesis
      by (auto simp: step_phases handle_departure_phases neq_Nil_conv)
  qed
qed

subsection \<open>The clock and the event list\<close>

lemma time_inv_eqI:
  assumes "time_inv s" and "events s' = events s" and "clock s' = clock s"
  shows "time_inv s'"
  using assms by (simp add: time_inv_def)

lemma schedule_time_inv:
  assumes "time_inv s" and "clock s \<le> time ev"
  shows "time_inv (schedule ev s)"
  using assms by (simp add: time_inv_def schedule_def list_all_iff)

lemma advance_time_inv:
  assumes "time_inv s" and "events s = ev # rest"
  shows "time_inv (advance ev rest s) \<and> clock s \<le> time ev"
  using assms by (auto simp: time_inv_def list_all_iff)

lemma handle_arrival_time_inv:
  assumes "time_inv s" and "\<And>n rate. 0 \<le> R n (Expovariate rate)"
  shows "time_inv (handle_arrival R ev s)"
proof (cases "server_busy s (queue_id ev)")
  case True
  with assms(1) show ?thesis
    by (auto intro: time_inv_eqI simp: handle_arrival_events)
next
  case False
  let ?d = "\<lparr>time = clock s + R (draws s) (Expovariate (MU_RATES (queue_id ev))),
              etype = DEPARTURE, customer = customer ev, queue_id = queue_id ev\<rparr>"
  from assms have "time_inv (schedule ?d s)"
    by (intro schedule_time_inv) simp_all
  with False show ?thesis
    by (auto intro: time_inv_eqI simp: handle_arrival_events)
qed

lemma schedule_next_external_time_inv:
  assumes "time_inv s" and "\<And>n rate. 0 \<le> R n (Expovariate rate)"
  shows "time_inv (schedule_next_external R s)"
proof -
  let ?a = "\<lparr>time = clock s + R (draws s) (Expovariate LAMBDA_SOURCE_RATE), etype = ARRIVAL,
              customer = \<lparr>cust_id = cust_counter s + 1, arrival_time = clock s\<rparr>,
              queue_id = Q1\<rparr>"
  from assms have "time_inv (schedule ?a s)"
    by (intro schedule_time_inv) simp_all
  then show ?thesis
    by (auto intro: time_inv_eqI simp: schedule_next_external_events)
qed

lemma route_customer_time_inv:
  assumes "time_inv s" and "\<And>n rate. 0 \<le> R n (Expovariate rate)"
  shows "time_inv (route_customer cfg R q c s)"
proof (cases "next_queue q (R (draws s) Random)")
  case None
  with assms(1) show ?thesis
    by (auto intro: time_inv_eqI simp: route_customer_def)
next
  case (Some next_q)
  from assms(1) have "time_inv (s\<lparr>draws := draws s + 1\<rparr>)"
    by (rule time_inv_eqI) simp_all
  with Some assms(2) show ?thesis
    by (simp add: route_customer_def handle_arrival_time_inv)
qed

lemma start_next_time_inv:
  assumes "time_inv s" and "\<And>n rate. 0 \<le> R n (Expovariate rate)"
  shows "time_inv (start_next R q s)"
proof (cases "queues s q")
  case Nil
  with assms(1) show ?thesis
    by (auto intro: time_inv_eqI simp: start_next_events)
next
  case (Cons nxt_c cs)
  let ?d = "\<lparr>time = clock s + R (draws s) (Expovariate (MU_RATES q)), etype = DEPARTURE,
              customer = nxt_c, queue_id = q\<rparr>"
  from assms have "time_inv (schedule ?d s)"
    by (intro schedule_time_inv) simp_all
  with Cons show ?thesis
    by (auto intro: time_inv_eqI simp: start_next_events)
qed

lemma step_time_inv:
  assumes inv: "time_inv s" and nonneg: "\<And>n rate. 0 \<le> R n (Expovariate rate)"
    and step: "step cfg R s = Inr (r, s')"
  shows "time_inv s'"
  using step
proof (cases rule: step_cases)
  case Finished
  with inv show ?thesis by simp
next
  case (Internal ev rest)
  from advance_time_inv [OF inv Internal(1)] show ?thesis
    unfolding Internal by (intro handle_arrival_time_inv nonneg) simp
next
  case (External ev rest)
  from advance_time_inv [OF inv External(1)] show ?thesis
    unfolding External
    by (intro schedule_next_external_time_inv handle_arrival_time_inv nonneg) simp
next
  case (Departure ev rest c qrest)
  from advance_time_inv [OF inv Departure(1)] have "time_inv (advance ev rest s)"
    by simp
  then have "time_inv (popped (queue_id ev) qrest (advance ev rest s))"
    by (rule time_inv_eqI) simp_all
  then show ?thesis
    unfolding Departure by (intro start_next_time_inv route_customer_time_inv nonneg)
qed

lemma reset_time_inv:
  assumes "\<And>n rate. 0 \<le> R n (Expovariate rate)"
  shows "time_inv (reset R)"
  using assms by (simp add: reset_def schedule_def time_inv_def)

lemma reachable_time_inv:
  assumes "reachable cfg R s" and "\<And>n rate. 0 \<le> R n (Expovariate rate)"
  shows "time_inv s"
  using assms
proof (induction)
  case reachable_reset
  then show ?case by (simp add: reset_time_inv)
next
  case (reachable_step s ev s')
  then show ?case
    using step_time_inv [of s R cfg ev s'] by blast
qed

lemma step_clock:
  assumes "step cfg R s = Inr (r, s')"
  shows "clock s' = (case r of None \<Rightarrow> clock s | Some ev \<Rightarrow> time ev)"
  using assms by (cases rule: step_cases) simp_all

lemma step_pops_head:
  assumes "step cfg R s = Inr (Some ev, s')"
  shows "\<exists>rest. events s = ev # rest"
  using assms by (cases rule: step_cases) simp_all

subsection \<open>Warm-up\<close>

lemma update_accumulators_counters [simp]:
  "Arrivals (stats (update_accumulators s) st) = Arrivals (stats s st)"
  "Departures (stats (update_accumulators s) st) = Departures (stats s st)"
  by (simp_all add: update_accumulators_stats)

lemma update_accumulators_warming:
  "is_warming_up s \<Longrightarrow> stats (update_accumulators s) st = stats s st"
  by (simp add: update_accumulators_stats)

lemma areas_zero_eqI:
  assumes "areas_zero s st"
    and "L_accum (stats s' st) = L_accum (stats s st)"
    and "Q_accum (stats s' st) = Q_accum (stats s st)"
    and "Busy_accum (stats s' st) = Busy_accum (stats s st)"
  shows "areas_zero s' st"
  using assms by (simp add: areas_zero_def)

lemma route_customer_warming:
  "is_warming_up (route_customer cfg R q c s) \<Longrightarrow> is_warming_up s"
  by (auto simp: route_customer_def leave_network_def reset_stats_post_warmup_def
      split: option.splits if_splits)

text \<open>While the flag stays up, routing writes only the two counters.\<close>

lemma route_customer_areas:
  assumes "is_warming_up (route_customer cfg R q c s)"
  shows "L_accum (stats (route_customer cfg R q c s) st) = L_accum (stats s st) \<and>
         Q_accum (stats (route_customer cfg R q c s) st) = Q_accum (stats s st) \<and>
         Busy_accum (stats (route_customer cfg R q c s) st) = Busy_accum (stats s st)"
  using assms
  by (auto simp: route_customer_def leave_network_def reset_stats_post_warmup_def
      split: option.splits if_splits)

lemma route_customer_threshold:
  assumes "\<not> is_warming_up s \<Longrightarrow> WARM_UP_CUSTOMERS cfg \<le> warmup_count s"
    and "\<not> is_warming_up (route_customer cfg R q c s)"
  shows "WARM_UP_CUSTOMERS cfg \<le> warmup_count (route_customer cfg R q c s)"
  using assms
  by (auto simp: route_customer_def leave_network_def reset_stats_post_warmup_def
      split: option.splits if_splits)

text \<open>The routing that takes the flag down is the statistics reset.\<close>

lemma route_customer_reset:
  assumes "is_warming_up s" and "\<not> is_warming_up (route_customer cfg R q c s)"
  shows "stats (route_customer cfg R q c s) = (\<lambda>_. zero_stats) \<and>
         steady_start_time (route_customer cfg R q c s) = clock s \<and>
         last_update (route_customer cfg R q c s) = clock s \<and>
         completed_count (route_customer cfg R q c s) = 0 \<and>
         total_response_time (route_customer cfg R q c s) = 0"
  using assms
  by (auto simp: route_customer_def leave_network_def reset_stats_post_warmup_def
      split: option.splits if_splits)

lemma step_warming:
  assumes "step cfg R s = Inr (r, s')" and "is_warming_up s'"
  shows "is_warming_up s"
  using assms by (cases rule: step_cases) (auto dest: route_customer_warming)

lemma step_areas_zero:
  assumes step: "step cfg R s = Inr (r, s')" and warm: "is_warming_up s'"
    and zero: "areas_zero s st"
  shows "areas_zero s' st"
proof -
  from step warm have w: "is_warming_up s"
    by (rule step_warming)
  from step show ?thesis
  proof (cases rule: step_cases)
    case Finished
    with zero show ?thesis by simp
  next
    case (Internal ev rest)
    with w show ?thesis
      by (auto intro!: areas_zero_eqI [OF zero] simp: advance_stats update_accumulators_warming)
  next
    case (External ev rest)
    with w show ?thesis
      by (auto intro!: areas_zero_eqI [OF zero] simp: advance_stats update_accumulators_warming)
  next
    case (Departure ev rest c qrest)
    let ?s2 = "popped (queue_id ev) qrest (advance ev rest s)"
    from warm Departure have "is_warming_up (route_customer cfg R (queue_id ev) c ?s2)"
      by simp
    from route_customer_areas [OF this, of st] w show ?thesis
      unfolding Departure
      by (auto intro!: areas_zero_eqI [OF zero] simp: advance_stats update_accumulators_warming)
  qed
qed

lemma step_threshold:
  assumes step: "step cfg R s = Inr (r, s')"
    and inv: "\<not> is_warming_up s \<Longrightarrow> WARM_UP_CUSTOMERS cfg \<le> warmup_count s"
    and cold: "\<not> is_warming_up s'"
  shows "WARM_UP_CUSTOMERS cfg \<le> warmup_count s'"
  using step
proof (cases rule: step_cases)
  case (Departure ev rest c qrest)
  let ?s2 = "popped (queue_id ev) qrest (advance ev rest s)"
  have "WARM_UP_CUSTOMERS cfg \<le> warmup_count (route_customer cfg R (queue_id ev) c ?s2)"
    using inv cold unfolding Departure by (intro route_customer_threshold) simp_all
  then show ?thesis
    unfolding Departure by simp
qed (use inv cold in auto)

lemma step_reset_moment:
  assumes step: "step cfg R s = Inr (r, s')"
    and warm: "is_warming_up s" and cold: "\<not> is_warming_up s'"
  shows "stats s' st = zero_stats \<and> steady_start_time s' = clock s' \<and>
         last_update s' = clock s' \<and> completed_count s' = 0 \<and> total_response_time s' = 0"
  using step
proof (cases rule: step_cases)
  case (Departure ev rest c qrest)
  let ?s2 = "popped (queue_id ev) qrest (advance ev rest s)"
  from warm have "is_warming_up ?s2"
    by simp
  moreover from cold have "\<not> is_warming_up (route_customer cfg R (queue_id ev) c ?s2)"
    unfolding Departure by simp
  ultimately show ?thesis
    unfolding Departure using route_customer_reset [of ?s2 cfg R "queue_id ev" c] by simp
qed (use warm cold in auto)

lemma reset_warm: "is_warming_up (reset R) \<and> areas_zero (reset R) st"
  by (simp add: reset_def schedule_def areas_zero_def zero_stats_def)

lemma reachable_warm:
  assumes "reachable cfg R s"
  shows "(is_warming_up s \<longrightarrow> areas_zero s st) \<and>
         (\<not> is_warming_up s \<longrightarrow> WARM_UP_CUSTOMERS cfg \<le> warmup_count s)"
  using assms
proof (induction)
  case reachable_reset
  show ?case using reset_warm [of R st] by simp
next
  case (reachable_step s ev s')
  then show ?case
    using step_areas_zero [of cfg R s ev s' st] step_warming [of cfg R s ev s']
      step_threshold [of cfg R s ev s']
    by blast
qed

text \<open>With a threshold of at least 1 the flag is up exactly below the threshold.\<close>

lemma route_customer_below:
  assumes "is_warming_up (route_customer cfg R q c s)"
    and "warmup_count s < WARM_UP_CUSTOMERS cfg"
  shows "warmup_count (route_customer cfg R q c s) < WARM_UP_CUSTOMERS cfg"
  using assms
  by (auto simp: route_customer_def leave_network_def reset_stats_post_warmup_def
      split: option.splits if_splits)

lemma step_below:
  assumes step: "step cfg R s = Inr (r, s')" and warm: "is_warming_up s'"
    and below: "warmup_count s < WARM_UP_CUSTOMERS cfg"
  shows "warmup_count s' < WARM_UP_CUSTOMERS cfg"
  using step
proof (cases rule: step_cases)
  case (Departure ev rest c qrest)
  let ?s2 = "popped (queue_id ev) qrest (advance ev rest s)"
  from warm have "is_warming_up (route_customer cfg R (queue_id ev) c ?s2)"
    unfolding Departure by simp
  moreover from below have "warmup_count ?s2 < WARM_UP_CUSTOMERS cfg"
    by simp
  ultimately have
    "warmup_count (route_customer cfg R (queue_id ev) c ?s2) < WARM_UP_CUSTOMERS cfg"
    by (rule route_customer_below)
  then show ?thesis
    unfolding Departure by simp
qed (use below in auto)

lemma reachable_below:
  assumes "reachable cfg R s" and "1 \<le> WARM_UP_CUSTOMERS cfg" and "is_warming_up s"
  shows "warmup_count s < WARM_UP_CUSTOMERS cfg"
  using assms
proof (induction)
  case reachable_reset
  then show ?case
    by (simp add: reset_def schedule_def)
next
  case (reachable_step s ev s')
  from reachable_step.hyps(2) reachable_step.prems(2) have "is_warming_up s"
    by (rule step_warming)
  with reachable_step have "warmup_count s < WARM_UP_CUSTOMERS cfg"
    by simp
  with reachable_step.hyps(2) reachable_step.prems(2) show ?case
    by (rule step_below)
qed

lemma reachable_flag:
  assumes "reachable cfg R s" and "1 \<le> WARM_UP_CUSTOMERS cfg"
  shows "is_warming_up s \<longleftrightarrow> warmup_count s < WARM_UP_CUSTOMERS cfg"
  using reachable_below [OF assms] reachable_warm [OF assms(1), of Q1] by auto

subsection \<open>Arrivals, departures and queue lengths\<close>

lemma route_customer_imbalance:
  assumes "is_warming_up (route_customer cfg R q c s) = is_warming_up s"
  shows "imbalance (route_customer cfg R q c s) st = imbalance s st"
  using assms
  by (auto simp: imbalance_def route_customer_def leave_network_def reset_stats_post_warmup_def
      split: option.splits if_splits)

lemma step_imbalance:
  assumes step: "step cfg R s = Inr (r, s')" and flag: "is_warming_up s' = is_warming_up s"
  shows "imbalance s' st = imbalance s st"
  using step
proof (cases rule: step_cases)
  case Finished
  then show ?thesis by simp
next
  case (Internal ev rest)
  then show ?thesis
    by (simp add: imbalance_def advance_stats)
next
  case (External ev rest)
  then show ?thesis
    by (simp add: imbalance_def advance_stats)
next
  case (Departure ev rest c qrest)
  let ?s2 = "popped (queue_id ev) qrest (advance ev rest s)"
  from flag have "is_warming_up (route_customer cfg R (queue_id ev) c ?s2) = is_warming_up ?s2"
    unfolding Departure by simp
  then have "imbalance (route_customer cfg R (queue_id ev) c ?s2) st = imbalance ?s2 st"
    by (rule route_customer_imbalance)
  moreover have "imbalance ?s2 st = imbalance s st"
    using Departure(5) by (simp add: imbalance_def advance_stats)
  ultimately show ?thesis
    unfolding Departure by (simp add: imbalance_def)
qed

lemma reset_imbalance: "imbalance (reset R) st = 0"
  by (simp add: reset_def schedule_def imbalance_def zero_stats_def)

lemma reachable_imbalance:
  assumes "reachable cfg R s" and "is_warming_up s"
  shows "imbalance s st = 0"
  using assms
proof (induction)
  case reachable_reset
  show ?case by (rule reset_imbalance)
next
  case (reachable_step s ev s')
  from reachable_step.hyps(2) reachable_step.prems have "is_warming_up s"
    by (rule step_warming)
  with reachable_step show ?case
    using step_imbalance [of cfg R s ev s' st] by simp
qed

lemma reachable_step_n:
  assumes "reachable cfg R s" and "step_n n cfg R s = Inr s'"
  shows "reachable cfg R s'"
  using assms
proof (induction n arbitrary: s)
  case 0
  then show ?case by simp
next
  case (Suc n)
  then show ?case
    by (auto split: sum.splits intro: reachable.reachable_step)
qed

subsection \<open>What a step adds to the areas\<close>

lemma route_customer_areas_cold:
  assumes "\<not> is_warming_up s"
  shows "L_accum (stats (route_customer cfg R q c s) st) = L_accum (stats s st) \<and>
         Q_accum (stats (route_customer cfg R q c s) st) = Q_accum (stats s st) \<and>
         Busy_accum (stats (route_customer cfg R q c s) st) = Busy_accum (stats s st)"
  using assms by (auto simp: route_customer_def leave_network_def split: option.splits)

text \<open>
  After the warm-up, a step that processes an event adds to the areas of every station
  the state of the station before the step, weighted with \<open>clock - last_update\<close> of
  the state before the step; the time of the event does not occur.
\<close>

lemma step_adds_stale_interval:
  assumes step: "step cfg R s = Inr (Some ev, s')" and cold: "\<not> is_warming_up s"
  shows "L_accum (stats s' st) =
           L_accum (stats s st) +
             real_of_int (int (length (queues s st))) * (clock s - last_update s) \<and>
         Q_accum (stats s' st) =
           Q_accum (stats s st) +
             real_of_int (if server_busy s st then max 0 (int (length (queues s st)) - 1) else 0) *
               (clock s - last_update s) \<and>
         Busy_accum (stats s' st) =
           (if server_busy s st then Busy_accum (stats s st) + (clock s - last_update s)
            else Busy_accum (stats s st))"
  using step
proof (cases rule: step_cases)
  case Finished
  then show ?thesis by simp
next
  case (Internal ev' rest)
  with cold show ?thesis
    by (simp add: advance_stats update_accumulators_stats)
next
  case (External ev' rest)
  with cold show ?thesis
    by (simp add: advance_stats update_accumulators_stats)
next
  case (Departure ev' rest c qrest)
  let ?s2 = "popped (queue_id ev') qrest (advance ev' rest s)"
  from cold have "\<not> is_warming_up ?s2"
    by simp
  from route_customer_areas_cold [OF this, of cfg R "queue_id ev'" c st] cold show ?thesis
    unfolding Departure by (simp add: advance_stats update_accumulators_stats)
qed

subsection \<open>Evaluating the deterministic scenario\<close>

lemmas engine_defs =
  step_def handle_arrival_def handle_departure_def update_accumulators_def accumulate_def
  schedule_def reset_def reset_stats_post_warmup_def next_queue_def stub_rng_def
  scenario_config_def source_config_def PROBS_def LAMBDA_SOURCE_RATE_def zero_stats_def
  Let_def shown_def

lemma reachable_scenario_state: "reachable scenario_config stub_rng (scenario_state n)"
proof (cases "step_n n scenario_config stub_rng (reset stub_rng)")
  case (Inl e)
  then show ?thesis
    by (simp add: scenario_state_def reachable_reset)
next
  case (Inr s)
  with reachable_step_n [OF reachable_reset Inr] show ?thesis
    by (simp add: scenario_state_def)
qed

lemma stub_rng_nonneg: "0 \<le> stub_rng n (Expovariate rate)"
  by (simp add: stub_rng_def)

lemma scenario_run_eval:
  "case run 100 scenario_config stub_rng [] (reset stub_rng) of
     Some (Inr (tr, s)) \<Rightarrow>
       map shown tr =
         [(1, ARRIVAL, 1, Q1), (3 / 2, DEPARTURE, 1, Q1),
          (2, ARRIVAL, 2, Q1), (2, DEPARTURE, 1, Q2),
          (5 / 2, DEPARTURE, 2, Q1), (5 / 2, DEPARTURE, 1, Q4),
          (3, ARRIVAL, 3, Q1), (3, DEPARTURE, 2, Q2),
          (7 / 2, DEPARTURE, 3, Q1), (7 / 2, DEPARTURE, 2, Q4),
          (4, ARRIVAL, 4, Q1), (4, DEPARTURE, 3, Q2),
          (9 / 2, DEPARTURE, 4, Q1), (9 / 2, DEPARTURE, 3, Q4),
          (5, ARRIVAL, 5, Q1), (5, DEPARTURE, 4, Q2),
          (11 / 2, DEPARTURE, 5, Q1), (11 / 2, DEPARTURE, 4, Q4),
          (6, ARRIVAL, 6, Q1), (6, DEPARTURE, 5, Q2),
          (13 / 2, DEPARTURE, 6, Q1), (13 / 2, DEPARTURE, 5, Q4),
          (7, ARRIVAL, 7, Q1), (7, DEPARTURE, 6, Q2),
          (15 / 2, DEPARTURE, 7, Q1), (15 / 2, DEPARTURE, 6, Q4)] \<and>
       completed_count s = 5 \<and> total_response_time s = 25 / 2
   | _ \<Rightarrow> False"
  by (simp add: engine_defs eval_nat_numeral cong: let_weak_cong)

lemma scenario_after_10:
  "completed_count (scenario_state 10) = 1 \<and> total_response_time (scenario_state 10) = 5 / 2 \<and>
   cust_counter (scenario_state 10) = 4"
  by (simp add: scenario_state_def engine_defs eval_nat_numeral cong: let_weak_cong)

subsection \<open>The stubbed run with the constants of the source\<close>

lemma step_n_add:
  "step_n (m + n) cfg R s =
     (case step_n m cfg R s of Inl e \<Rightarrow> Inl e | Inr s' \<Rightarrow> step_n n cfg R s')"
  by (induction m arbitrary: s) (auto split: sum.splits)

text \<open>One period of the run: four events take the engine from one exit to the next.\<close>

lemma warm_phase_period:
  assumes "warm_phase k s"
  shows "\<exists>s'. step_n 4 source_config stub_rng s = Inr s' \<and>
           clock s' = real k + 5 / 2 \<and>
           events s' =
             [\<lparr>time = real k + 3, etype = ARRIVAL,
               customer = \<lparr>cust_id = int k + 3, arrival_time = real k + 2\<rparr>, queue_id = Q1\<rparr>,
              \<lparr>time = real k + 3, etype = DEPARTURE,
               customer = \<lparr>cust_id = int k + 2, arrival_time = real k + 1\<rparr>, queue_id = Q2\<rparr>] \<and>
           queues s' Q1 = [] \<and>
           queues s' Q2 = [\<lparr>cust_id = int k + 2, arrival_time = real k + 1\<rparr>] \<and>
           queues s' Q3 = [] \<and> queues s' Q4 = [] \<and>
           \<not> server_busy s' Q1 \<and> server_busy s' Q2 \<and> \<not> server_busy s' Q3 \<and>
           \<not> server_busy s' Q4 \<and>
           cust_counter s' = int k + 3 \<and> warmup_count s' = int k + 1 \<and>
           completed_count s' = 0 \<and>
           is_warming_up s' = (int k + 1 < 1000) \<and>
           (\<not> is_warming_up s' \<longrightarrow> stats s' = (\<lambda>_. zero_stats) \<and> last_update s' = clock s')"
  using assms
  by (simp add: warm_phase_def engine_defs eval_nat_numeral cong: let_weak_cong)

lemma warm_phase_first:
  "\<exists>s. step_n 6 source_config stub_rng (reset stub_rng) = Inr s \<and> warm_phase 1 s"
  by (simp add: warm_phase_def engine_defs eval_nat_numeral cong: let_weak_cong)

lemma warm_phase_Suc:
  assumes "warm_phase k s" and "k < 999"
  shows "\<exists>s'. step_n 4 source_config stub_rng s = Inr s' \<and> warm_phase (Suc k) s'"
proof -
  from warm_phase_period [OF assms(1)] obtain s' where
    run: "step_n 4 source_config stub_rng s = Inr s'"
    and 1: "clock s' = real k + 5 / 2"
    and 2: "events s' =
             [\<lparr>time = real k + 3, etype = ARRIVAL,
               customer = \<lparr>cust_id = int k + 3, arrival_time = real k + 2\<rparr>, queue_id = Q1\<rparr>,
              \<lparr>time = real k + 3, etype = DEPARTURE,
               customer = \<lparr>cust_id = int k + 2, arrival_time = real k + 1\<rparr>, queue_id = Q2\<rparr>]"
    and 3: "queues s' Q1 = []" "queues s' Q2 = [\<lparr>cust_id = int k + 2, arrival_time = real k + 1\<rparr>]"
      "queues s' Q3 = []" "queues s' Q4 = []"
    and 4: "\<not> server_busy s' Q1" "server_busy s' Q2" "\<not> server_busy s' Q3" "\<not> server_busy s' Q4"
    and 5: "cust_counter s' = int k + 3" "warmup_count s' = int k + 1" "completed_count s' = 0"
    and 6: "is_warming_up s' = (int k + 1 < 1000)"
    by blast
  from assms(2) 6 have "is_warming_up s'"
    by simp
  with 1 2 3 4 5 have "warm_phase (Suc k) s'"
    by (simp add: warm_phase_def algebra_simps)
  with run show ?thesis
    by blast
qed

lemma warm_phase_reached:
  assumes "k < 999"
  shows "\<exists>s. step_n (4 * k + 6) source_config stub_rng (reset stub_rng) = Inr s \<and>
           warm_phase (Suc k) s"
  using assms
proof (induction k)
  case 0
  from warm_phase_first show ?case by simp
next
  case (Suc k)
  then obtain s where
    s: "step_n (4 * k + 6) source_config stub_rng (reset stub_rng) = Inr s"
    and phase: "warm_phase (Suc k) s"
    by auto
  from Suc.prems have "Suc k < 999"
    by simp
  from warm_phase_Suc [OF phase this] obtain s' where
    s': "step_n 4 source_config stub_rng s = Inr s'" and phase': "warm_phase (Suc (Suc k)) s'"
    by blast
  have "4 * Suc k + 6 = (4 * k + 6) + 4"
    by simp
  then have "step_n (4 * Suc k + 6) source_config stub_rng (reset stub_rng) =
      step_n ((4 * k + 6) + 4) source_config stub_rng (reset stub_rng)"
    by (rule arg_cong)
  also have "\<dots> = Inr s'"
    unfolding step_n_add [of "4 * k + 6" 4] using s s' by simp
  finally show ?case
    using phase' by blast
qed

text \<open>
  With the constants of the source the 1000th exit, at step 4002, ends the warm-up while
  customer 1001 is in service at station 2.
\<close>

lemma warm_up_end:
  "\<exists>s. step_n 4002 source_config stub_rng (reset stub_rng) = Inr s \<and>
     reachable source_config stub_rng s \<and>
     \<not> is_warming_up s \<and> clock s = 2003 / 2 \<and> last_update s = 2003 / 2 \<and>
     completed_count s = 0 \<and>
     map shown (events s) = [(1002, ARRIVAL, 1002, Q1), (1002, DEPARTURE, 1001, Q2)] \<and>
     length (queues s Q2) = 1 \<and> server_busy s Q2 \<and> stats s Q2 = zero_stats"
proof -
  from warm_phase_reached [of 998] obtain s where
    s: "step_n 3998 source_config stub_rng (reset stub_rng) = Inr s"
    and phase: "warm_phase 999 s"
    by auto
  from warm_phase_period [OF phase] obtain s' where
    s': "step_n 4 source_config stub_rng s = Inr s'"
    and 1: "clock s' = real 999 + 5 / 2"
    and 2: "events s' =
             [\<lparr>time = real 999 + 3, etype = ARRIVAL,
               customer = \<lparr>cust_id = int 999 + 3, arrival_time = real 999 + 2\<rparr>, queue_id = Q1\<rparr>,
              \<lparr>time = real 999 + 3, etype = DEPARTURE,
               customer = \<lparr>cust_id = int 999 + 2, arrival_time = real 999 + 1\<rparr>, queue_id = Q2\<rparr>]"
    and 3: "queues s' Q2 = [\<lparr>cust_id = int 999 + 2, arrival_time = real 999 + 1\<rparr>]"
      "server_busy s' Q2" "completed_count s' = 0"
    and 4: "is_warming_up s' = (int 999 + 1 < 1000)"
    and 5: "\<not> is_warming_up s' \<longrightarrow> stats s' = (\<lambda>_. zero_stats) \<and> last_update s' = clock s'"
    by blast
  from 4 have cold: "\<not> is_warming_up s'"
    by simp
  with 5 have 6: "stats s' Q2 = zero_stats" "last_update s' = clock s'"
    by simp_all
  have "step_n (3998 + 4) source_config stub_rng (reset stub_rng) = Inr s'"
    unfolding step_n_add [of 3998 4] using s s' by simp
  then have run: "step_n 4002 source_config stub_rng (reset stub_rng) = Inr s'"
    by simp
  with reachable_reset have "reachable source_config stub_rng s'"
    by (rule reachable_step_n)
  moreover from 2 have
    "map shown (events s') = [(1002, ARRIVAL, 1002, Q1), (1002, DEPARTURE, 1001, Q2)]"
    by (simp add: shown_def)
  moreover from 1 have "clock s' = 2003 / 2"
    by simp
  moreover from 3 have "length (queues s' Q2) = 1"
    by simp
  ultimately show ?thesis
    using run cold 3 6 by auto
qed

section \<open>Properties\<close>

subsection \<open>The statistics reset\<close>

text \<open>
  C6: the statistics reset made when the warm-up threshold is reached leaves the physical
  state of the network as it is: the queues, the busy flags, the pending events, the
  clock and the external-customer counter (and the warm-up count and the random source)
  are the same before and after. What it writes are the statistics records,
  \<open>completed_count\<close>, \<open>total_response_time\<close>, \<open>last_update\<close>, \<open>is_warming_up\<close> and
  \<open>steady_start_time\<close>.
\<close>

theorem reset_stats_post_warmup_frame:
  "queues (reset_stats_post_warmup s) = queues s \<and>
   server_busy (reset_stats_post_warmup s) = server_busy s \<and>
   events (reset_stats_post_warmup s) = events s \<and>
   clock (reset_stats_post_warmup s) = clock s \<and>
   cust_counter (reset_stats_post_warmup s) = cust_counter s \<and>
   warmup_count (reset_stats_post_warmup s) = warmup_count s \<and>
   draws (reset_stats_post_warmup s) = draws s \<and>
   reset_stats_post_warmup s =
     s\<lparr>stats := stats (reset_stats_post_warmup s),
       completed_count := completed_count (reset_stats_post_warmup s),
       total_response_time := total_response_time (reset_stats_post_warmup s),
       last_update := last_update (reset_stats_post_warmup s),
       is_warming_up := is_warming_up (reset_stats_post_warmup s),
       steady_start_time := steady_start_time (reset_stats_post_warmup s)\<rparr>"
  by (simp add: reset_stats_post_warmup_def)

subsection \<open>The deterministic trace\<close>

text \<open>
  C1, as the code has it. In the deterministic scenario (interarrival draws 1.0, service
  draws 0.5, uniform draws 0.2, completion target 5) every customer costs four events:
  customer \<open>k\<close> arrives at station 1 at time \<open>k\<close> and departs from station 1 at
  \<open>k + 1/2\<close>, from station 2 at \<open>k + 1\<close> and from station 4 at \<open>k + 3/2\<close>, where it
  leaves the network (a transfer between stations is a direct call of the arrival
  handler, not an event). The first five customers so take 20 events. The engine goes on
  scheduling external arrivals, so their events are interleaved with the first two of
  customer 6: the sequence up to the exit of customer 5 is the 22 events below. The run
  loop stops by itself, with \<open>completed_count = 5\<close>.
\<close>

theorem scenario_trace:
  "case run 100 scenario_config stub_rng [] (reset stub_rng) of
     Some (Inr (tr, s)) \<Rightarrow>
       take 22 (map shown tr) =
         [(1, ARRIVAL, 1, Q1), (3 / 2, DEPARTURE, 1, Q1),
          (2, ARRIVAL, 2, Q1), (2, DEPARTURE, 1, Q2),
          (5 / 2, DEPARTURE, 2, Q1), (5 / 2, DEPARTURE, 1, Q4),
          (3, ARRIVAL, 3, Q1), (3, DEPARTURE, 2, Q2),
          (7 / 2, DEPARTURE, 3, Q1), (7 / 2, DEPARTURE, 2, Q4),
          (4, ARRIVAL, 4, Q1), (4, DEPARTURE, 3, Q2),
          (9 / 2, DEPARTURE, 4, Q1), (9 / 2, DEPARTURE, 3, Q4),
          (5, ARRIVAL, 5, Q1), (5, DEPARTURE, 4, Q2),
          (11 / 2, DEPARTURE, 5, Q1), (11 / 2, DEPARTURE, 4, Q4),
          (6, ARRIVAL, 6, Q1), (6, DEPARTURE, 5, Q2),
          (13 / 2, DEPARTURE, 6, Q1), (13 / 2, DEPARTURE, 5, Q4)] \<and>
       map shown (filter (\<lambda>e. cust_id (customer e) = 1) tr) =
         [(1, ARRIVAL, 1, Q1), (3 / 2, DEPARTURE, 1, Q1),
          (2, DEPARTURE, 1, Q2), (5 / 2, DEPARTURE, 1, Q4)] \<and>
       map shown (filter (\<lambda>e. cust_id (customer e) = 2) tr) =
         [(2, ARRIVAL, 2, Q1), (5 / 2, DEPARTURE, 2, Q1),
          (3, DEPARTURE, 2, Q2), (7 / 2, DEPARTURE, 2, Q4)] \<and>
       map shown (filter (\<lambda>e. cust_id (customer e) = 3) tr) =
         [(3, ARRIVAL, 3, Q1), (7 / 2, DEPARTURE, 3, Q1),
          (4, DEPARTURE, 3, Q2), (9 / 2, DEPARTURE, 3, Q4)] \<and>
       map shown (filter (\<lambda>e. cust_id (customer e) = 4) tr) =
         [(4, ARRIVAL, 4, Q1), (9 / 2, DEPARTURE, 4, Q1),
          (5, DEPARTURE, 4, Q2), (11 / 2, DEPARTURE, 4, Q4)] \<and>
       map shown (filter (\<lambda>e. cust_id (customer e) = 5) tr) =
         [(5, ARRIVAL, 5, Q1), (11 / 2, DEPARTURE, 5, Q1),
          (6, DEPARTURE, 5, Q2), (13 / 2, DEPARTURE, 5, Q4)] \<and>
       length (filter (\<lambda>e. cust_id (customer e) \<le> 5) tr) = 20 \<and>
       completed_count s = 5
   | _ \<Rightarrow> False"
  by (simp add: engine_defs eval_nat_numeral cong: let_weak_cong)

text \<open>
  C1 as the specification states it (10 events, \<open>completed_count = 5\<close>,
  \<open>total_response_time = 5 * 2.0\<close>) fails: the run does not end after 10 events, and
  after the first 10 events \<open>completed_count\<close> is not 5.
\<close>

theorem scenario_trace_counterexample:
  "\<not> (\<exists>tr s. run 100 scenario_config stub_rng [] (reset stub_rng) = Some (Inr (tr, s)) \<and>
        length tr = 10 \<and> completed_count s = 5 \<and> total_response_time s = 5 * 2) \<and>
   completed_count (scenario_state 10) \<noteq> 5"
proof -
  have "length tr \<noteq> 10"
    if "run 100 scenario_config stub_rng [] (reset stub_rng) = Some (Inr (tr, s))" for tr s
  proof -
    from that scenario_run_eval have "length (map shown tr) = 26"
      by simp
    then show ?thesis by simp
  qed
  with scenario_after_10 show ?thesis
    by auto
qed

subsection \<open>The interval that is integrated\<close>

text \<open>
  C2 asks that a step which processes an event at time \<open>t\<close> adds the queue length times
  the time elapsed since the previous event. \<open>step\<close> calls \<open>update_accumulators\<close> before
  it moves the clock, so the interval added is \<open>clock - last_update\<close> of the state
  before the step (\<open>step_adds_stale_interval\<close>), which is the length of the interval
  before the previous event. Two runs on the stubbed random source show it.
  With warm-up threshold 0 the seventh step processes the arrival at time 3 from the
  state at time 5/2, in which the warm-up is over and station 2 holds one customer and is
  busy: the areas of station 2 gain 0 and not 1/2.
  With the constants of the source the same happens at step 4003, which processes the
  arrival at time 1002 from the state at time 2003/2.
\<close>

theorem update_accumulators_lags:
  "(case step scenario_config stub_rng (scenario_state 6) of
      Inr (Some ev, s') \<Rightarrow>
        \<not> is_warming_up (scenario_state 6) \<and>
        clock (scenario_state 6) = 5 / 2 \<and> time ev = 3 \<and>
        length (queues (scenario_state 6) Q2) = 1 \<and> server_busy (scenario_state 6) Q2 \<and>
        L_accum (stats s' Q2) - L_accum (stats (scenario_state 6) Q2) = 0 \<and>
        Busy_accum (stats s' Q2) - Busy_accum (stats (scenario_state 6) Q2) = 0
    | _ \<Rightarrow> False) \<and>
   (case step_n 4002 source_config stub_rng (reset stub_rng) of
      Inr s \<Rightarrow>
        (case step source_config stub_rng s of
           Inr (Some ev, s') \<Rightarrow>
             \<not> is_warming_up s \<and> clock s = 2003 / 2 \<and> time ev = 1002 \<and>
             length (queues s Q2) = 1 \<and> server_busy s Q2 \<and>
             L_accum (stats s' Q2) - L_accum (stats s Q2) = 0 \<and>
             Busy_accum (stats s' Q2) - Busy_accum (stats s Q2) = 0
         | _ \<Rightarrow> False)
    | Inl e \<Rightarrow> False)"
proof -
  have first: "case step scenario_config stub_rng (scenario_state 6) of
      Inr (Some ev, s') \<Rightarrow>
        \<not> is_warming_up (scenario_state 6) \<and>
        clock (scenario_state 6) = 5 / 2 \<and> time ev = 3 \<and>
        length (queues (scenario_state 6) Q2) = 1 \<and> server_busy (scenario_state 6) Q2 \<and>
        L_accum (stats s' Q2) - L_accum (stats (scenario_state 6) Q2) = 0 \<and>
        Busy_accum (stats s' Q2) - Busy_accum (stats (scenario_state 6) Q2) = 0
    | _ \<Rightarrow> False"
    by (simp add: scenario_state_def engine_defs eval_nat_numeral cong: let_weak_cong)
  from warm_up_end obtain s where
    run: "step_n 4002 source_config stub_rng (reset stub_rng) = Inr s"
    and cold: "\<not> is_warming_up s"
    and times: "clock s = 2003 / 2" "last_update s = 2003 / 2"
    and count: "completed_count s = 0"
    and evs: "map shown (events s) = [(1002, ARRIVAL, 1002, Q1), (1002, DEPARTURE, 1001, Q2)]"
    and q2: "length (queues s Q2) = 1" "server_busy s Q2"
    by (elim exE conjE)
  from evs obtain a rest where a: "events s = a # rest" "time a = 1002" "etype a = ARRIVAL"
    by (auto simp: shown_def)
  with count obtain s' where st: "step source_config stub_rng s = Inr (Some a, s')"
    by (simp add: step_phases source_config_def)
  from step_adds_stale_interval [OF st cold, of Q2] times q2
  have "L_accum (stats s' Q2) - L_accum (stats s Q2) = 0"
    "Busy_accum (stats s' Q2) - Busy_accum (stats s Q2) = 0"
    by simp_all
  with run st cold times a q2 first show ?thesis
    by simp
qed

subsection \<open>Conservation\<close>

text \<open>
  C3, as the code has it. While the engine is warming up, the arrivals counter of every
  station minus its departures counter is the length of its queue. The statistics reset
  at the end of the warm-up zeroes the counters and keeps the queues; from then on the
  difference between the two sides stays what the reset made it: a step that does not
  perform the reset leaves \<open>Arrivals - Departures - length of the queue\<close> of every
  station unchanged.
\<close>

theorem conservation_until_reset:
  assumes "reachable cfg R s"
  shows "(is_warming_up s \<longrightarrow>
            Arrivals (stats s st) - Departures (stats s st) = int (length (queues s st))) \<and>
         (\<forall>r s'. step cfg R s = Inr (r, s') \<and> is_warming_up s' = is_warming_up s \<longrightarrow>
            imbalance s' st = imbalance s st)"
  using reachable_imbalance [OF assms, of st] step_imbalance [of cfg R s]
  by (auto simp: imbalance_def)

theorem conservation_until_reset_witness:
  "reachable scenario_config stub_rng (scenario_state 1) \<and>
   is_warming_up (scenario_state 1) \<and>
   Arrivals (stats (scenario_state 1) Q1) - Departures (stats (scenario_state 1) Q1) = 1 \<and>
   int (length (queues (scenario_state 1) Q1)) = 1 \<and>
   (case step scenario_config stub_rng (scenario_state 1) of
      Inr (r, s') \<Rightarrow>
        is_warming_up s' = is_warming_up (scenario_state 1) \<and>
        imbalance s' Q2 = imbalance (scenario_state 1) Q2 \<and>
        length (queues s' Q2) = 1
    | Inl e \<Rightarrow> False)"
proof -
  have ev: "is_warming_up (scenario_state 1) \<and>
      int (length (queues (scenario_state 1) Q1)) = 1 \<and>
      (case step scenario_config stub_rng (scenario_state 1) of
         Inr (r, s') \<Rightarrow> is_warming_up s' = is_warming_up (scenario_state 1) \<and>
           length (queues s' Q2) = 1
       | Inl e \<Rightarrow> False)"
    by (simp add: scenario_state_def engine_defs eval_nat_numeral cong: let_weak_cong)
  from conservation_until_reset [OF reachable_scenario_state, of 1] ev
  show ?thesis
    using reachable_scenario_state [of 1] by (auto split: sum.splits)
qed

text \<open>
  C3 as the specification states it fails after the reset. On the stubbed random source
  with warm-up threshold 0 the sixth step ends the warm-up, and the customer waiting at
  station 2 is in no counter; with the constants of the source the same holds after
  step 4002.
\<close>

theorem conservation_counterexample:
  "reachable scenario_config stub_rng (scenario_state 6) \<and>
   Arrivals (stats (scenario_state 6) Q2) - Departures (stats (scenario_state 6) Q2) = 0 \<and>
   int (length (queues (scenario_state 6) Q2)) = 1 \<and>
   (case step_n 4002 source_config stub_rng (reset stub_rng) of
      Inr s \<Rightarrow>
        reachable source_config stub_rng s \<and>
        Arrivals (stats s Q2) - Departures (stats s Q2) = 0 \<and> int (length (queues s Q2)) = 1
    | Inl e \<Rightarrow> False)"
proof -
  have "Arrivals (stats (scenario_state 6) Q2) - Departures (stats (scenario_state 6) Q2) = 0 \<and>
      int (length (queues (scenario_state 6) Q2)) = 1"
    by (simp add: scenario_state_def engine_defs eval_nat_numeral cong: let_weak_cong)
  moreover from warm_up_end obtain s where
    "step_n 4002 source_config stub_rng (reset stub_rng) = Inr s"
    "reachable source_config stub_rng s" "length (queues s Q2) = 1" "stats s Q2 = zero_stats"
    by (elim exE conjE)
  ultimately show ?thesis
    using reachable_scenario_state [of 6] by (simp add: zero_stats_def)
qed

subsection \<open>The arrival time of a customer\<close>

text \<open>
  C4 asks that \<open>arrival_time\<close> be the clock at the customer's ARRIVAL event at station 1.
  The code gives a customer the clock of the moment its arrival is scheduled: the seed
  customer gets 0 and its arrival is at the first interarrival draw, and every later
  customer gets the time of the arrival before its own. On the stubbed random source
  the seed arrives at 1 with \<open>arrival_time = 0\<close> and customer 2 arrives at 2 with
  \<open>arrival_time = 1\<close>.
\<close>

theorem arrival_time_is_scheduling_time:
  "map (\<lambda>e. (shown e, arrival_time (customer e))) (events (reset stub_rng)) =
     [((1, ARRIVAL, 1, Q1), 0)] \<and>
   (case step source_config stub_rng (reset stub_rng) of
      Inr (r, s') \<Rightarrow>
        map (\<lambda>e. (shown e, arrival_time (customer e))) (events s') =
          [((3 / 2, DEPARTURE, 1, Q1), 0), ((2, ARRIVAL, 2, Q1), 1)]
    | Inl e \<Rightarrow> False)"
  by (simp add: engine_defs cong: let_weak_cong)

subsection \<open>Warm-up isolation\<close>

text \<open>
  C5, as the code has it, for a warm-up threshold of at least 1. In every reachable
  state the engine is warming up exactly when \<open>warmup_count\<close> is below the threshold.
  Before \<open>warmup_count\<close> reaches the threshold the three time integrals \<open>L_accum\<close>,
  \<open>Q_accum\<close> and \<open>Busy_accum\<close> of every station are exactly zero, whatever time has
  passed (the counters \<open>Arrivals\<close> and \<open>Departures\<close> do count during the warm-up). In
  the state right after the step in which \<open>warmup_count\<close> reaches the threshold the
  whole statistics record of every station is zero, \<open>steady_start_time\<close> is the clock
  and \<open>is_warming_up\<close> is false; and from a state in which the threshold is reached
  every step leads to a state in which it is reached and \<open>is_warming_up\<close> is false.
\<close>

theorem warmup_isolation:
  assumes "reachable cfg R s" and "1 \<le> WARM_UP_CUSTOMERS cfg"
  shows "(is_warming_up s \<longleftrightarrow> warmup_count s < WARM_UP_CUSTOMERS cfg) \<and>
         (warmup_count s < WARM_UP_CUSTOMERS cfg \<longrightarrow>
            L_accum (stats s st) = 0 \<and> Q_accum (stats s st) = 0 \<and> Busy_accum (stats s st) = 0) \<and>
         (\<forall>r s'. step cfg R s = Inr (r, s') \<longrightarrow>
            (warmup_count s < WARM_UP_CUSTOMERS cfg \<and> WARM_UP_CUSTOMERS cfg \<le> warmup_count s' \<longrightarrow>
               stats s' st = zero_stats \<and> steady_start_time s' = clock s' \<and>
               \<not> is_warming_up s') \<and>
            (WARM_UP_CUSTOMERS cfg \<le> warmup_count s \<longrightarrow>
               WARM_UP_CUSTOMERS cfg \<le> warmup_count s' \<and> \<not> is_warming_up s'))"
proof (intro conjI allI impI)
  note flag = reachable_flag [OF assms]
  show "is_warming_up s \<longleftrightarrow> warmup_count s < WARM_UP_CUSTOMERS cfg"
    by (rule flag)
  {
    assume "warmup_count s < WARM_UP_CUSTOMERS cfg"
    with flag have "is_warming_up s"
      by simp
    with reachable_warm [OF assms(1), of st] have "areas_zero s st"
      by simp
    then show "L_accum (stats s st) = 0" "Q_accum (stats s st) = 0"
      "Busy_accum (stats s st) = 0"
      by (simp_all add: areas_zero_def)
  }
  fix r s'
  assume st: "step cfg R s = Inr (r, s')"
  from assms(1) st have "reachable cfg R s'"
    by (rule reachable_step)
  from reachable_flag [OF this assms(2)]
  have flag': "is_warming_up s' \<longleftrightarrow> warmup_count s' < WARM_UP_CUSTOMERS cfg" .
  {
    assume "warmup_count s < WARM_UP_CUSTOMERS cfg \<and> WARM_UP_CUSTOMERS cfg \<le> warmup_count s'"
    with flag flag' have flip: "is_warming_up s" "\<not> is_warming_up s'"
      by simp_all
    from step_reset_moment [OF st flip, of st]
    show "stats s' st = zero_stats" "steady_start_time s' = clock s'"
      by simp_all
    from flip show "\<not> is_warming_up s'"
      by simp
  }
  {
    assume "WARM_UP_CUSTOMERS cfg \<le> warmup_count s"
    with flag have cold: "\<not> is_warming_up s"
      by simp
    show cold': "\<not> is_warming_up s'"
    proof
      assume "is_warming_up s'"
      with st have "is_warming_up s"
        by (rule step_warming)
      with cold show False by simp
    qed
    with flag' show "WARM_UP_CUSTOMERS cfg \<le> warmup_count s'"
      by simp
  }
qed

theorem warmup_isolation_witness:
  "case step_n 5 discard_one_config stub_rng (reset stub_rng) of
     Inr s \<Rightarrow>
       reachable discard_one_config stub_rng s \<and> 1 \<le> WARM_UP_CUSTOMERS discard_one_config \<and>
       warmup_count s < WARM_UP_CUSTOMERS discard_one_config \<and> is_warming_up s \<and>
       L_accum (stats s Q1) = 0 \<and> Q_accum (stats s Q1) = 0 \<and> Busy_accum (stats s Q1) = 0 \<and>
       Arrivals (stats s Q1) = 2 \<and>
       (case step discard_one_config stub_rng s of
          Inr (r, s') \<Rightarrow>
            WARM_UP_CUSTOMERS discard_one_config \<le> warmup_count s' \<and>
            stats s' Q1 = zero_stats \<and> steady_start_time s' = clock s' \<and> clock s' = 5 / 2 \<and>
            \<not> is_warming_up s' \<and>
            (case step discard_one_config stub_rng s' of
               Inr (r', s'') \<Rightarrow>
                 WARM_UP_CUSTOMERS discard_one_config \<le> warmup_count s'' \<and>
                 \<not> is_warming_up s''
             | Inl e \<Rightarrow> False)
        | Inl e \<Rightarrow> False)
   | Inl e \<Rightarrow> False"
proof -
  let ?c = discard_one_config
  have ev: "case step_n 5 ?c stub_rng (reset stub_rng) of
     Inr s \<Rightarrow>
       warmup_count s < WARM_UP_CUSTOMERS ?c \<and> Arrivals (stats s Q1) = 2 \<and>
       (case step ?c stub_rng s of
          Inr (r, s') \<Rightarrow>
            WARM_UP_CUSTOMERS ?c \<le> warmup_count s' \<and> clock s' = 5 / 2 \<and>
            (case step ?c stub_rng s' of Inr (r', s'') \<Rightarrow> True | Inl e \<Rightarrow> False)
        | Inl e \<Rightarrow> False)
   | Inl e \<Rightarrow> False"
    by (simp add: discard_one_config_def engine_defs eval_nat_numeral cong: let_weak_cong)
  have one: "1 \<le> WARM_UP_CUSTOMERS ?c"
    by (simp add: discard_one_config_def)
  obtain s where run: "step_n 5 ?c stub_rng (reset stub_rng) = Inr s"
    using ev by (cases "step_n 5 ?c stub_rng (reset stub_rng)") simp_all
  with ev have evs: "warmup_count s < WARM_UP_CUSTOMERS ?c \<and> Arrivals (stats s Q1) = 2 \<and>
       (case step ?c stub_rng s of
          Inr (r, s') \<Rightarrow>
            WARM_UP_CUSTOMERS ?c \<le> warmup_count s' \<and> clock s' = 5 / 2 \<and>
            (case step ?c stub_rng s' of Inr (r', s'') \<Rightarrow> True | Inl e \<Rightarrow> False)
        | Inl e \<Rightarrow> False)"
    by simp
  then have below: "warmup_count s < WARM_UP_CUSTOMERS ?c" "Arrivals (stats s Q1) = 2"
    by simp_all
  obtain r s' where st: "step ?c stub_rng s = Inr (r, s')"
    using evs by (cases "step ?c stub_rng s") auto
  with evs have evs': "WARM_UP_CUSTOMERS ?c \<le> warmup_count s' \<and> clock s' = 5 / 2 \<and>
       (case step ?c stub_rng s' of Inr (r', s'') \<Rightarrow> True | Inl e \<Rightarrow> False)"
    by simp
  then have reached: "WARM_UP_CUSTOMERS ?c \<le> warmup_count s'" "clock s' = 5 / 2"
    by simp_all
  obtain r' s'' where st': "step ?c stub_rng s' = Inr (r', s'')"
    using evs' by (cases "step ?c stub_rng s'") auto
  from reachable_reset run have reach: "reachable ?c stub_rng s"
    by (rule reachable_step_n)
  from reach st have reach': "reachable ?c stub_rng s'"
    by (rule reachable_step)
  note iso = warmup_isolation [OF reach one, of Q1]
  note iso' = warmup_isolation [OF reach' one, of Q1]
  from iso below have 1: "is_warming_up s" "L_accum (stats s Q1) = 0"
    "Q_accum (stats s Q1) = 0" "Busy_accum (stats s Q1) = 0"
    by simp_all
  from iso st have "warmup_count s < WARM_UP_CUSTOMERS ?c \<and>
      WARM_UP_CUSTOMERS ?c \<le> warmup_count s' \<longrightarrow>
      stats s' Q1 = zero_stats \<and> steady_start_time s' = clock s' \<and> \<not> is_warming_up s'"
    by blast
  with below reached have 2: "stats s' Q1 = zero_stats" "steady_start_time s' = clock s'"
    "\<not> is_warming_up s'"
    by simp_all
  from iso' st' have "WARM_UP_CUSTOMERS ?c \<le> warmup_count s' \<longrightarrow>
      WARM_UP_CUSTOMERS ?c \<le> warmup_count s'' \<and> \<not> is_warming_up s''"
    by blast
  with reached have 3: "WARM_UP_CUSTOMERS ?c \<le> warmup_count s''" "\<not> is_warming_up s''"
    by simp_all
  from run st st' reach one below reached 1 2 3 show ?thesis
    by simp
qed

text \<open>
  C5 as the specification states it fails for the two counters: with the constants of
  the source, after the first step the warm-up count is 0, below the threshold 1000, and
  station 1 has counted one arrival. It also fails at threshold 0, which the initial
  state has reached while \<open>is_warming_up\<close> is true.
\<close>

theorem warmup_isolation_counterexample:
  "(case step source_config stub_rng (reset stub_rng) of
      Inr (r, s') \<Rightarrow>
        reachable source_config stub_rng s' \<and>
        warmup_count s' < WARM_UP_CUSTOMERS source_config \<and> is_warming_up s' \<and>
        Arrivals (stats s' Q1) = 1
    | Inl e \<Rightarrow> False) \<and>
   reachable scenario_config stub_rng (reset stub_rng) \<and>
   WARM_UP_CUSTOMERS scenario_config \<le> warmup_count (reset stub_rng) \<and>
   is_warming_up (reset stub_rng)"
proof -
  have ev: "case step source_config stub_rng (reset stub_rng) of
     Inr (r, s') \<Rightarrow>
       warmup_count s' < WARM_UP_CUSTOMERS source_config \<and> is_warming_up s' \<and>
       Arrivals (stats s' Q1) = 1
   | Inl e \<Rightarrow> False"
    by (simp add: engine_defs cong: let_weak_cong)
  have "reachable source_config stub_rng s'"
    if "step source_config stub_rng (reset stub_rng) = Inr (r, s')" for r s'
    using reachable_reset that by (rule reachable_step)
  with ev have "case step source_config stub_rng (reset stub_rng) of
      Inr (r, s') \<Rightarrow>
        reachable source_config stub_rng s' \<and>
        warmup_count s' < WARM_UP_CUSTOMERS source_config \<and> is_warming_up s' \<and>
        Arrivals (stats s' Q1) = 1
    | Inl e \<Rightarrow> False"
    by (auto split: sum.splits)
  moreover have "WARM_UP_CUSTOMERS scenario_config \<le> warmup_count (reset stub_rng) \<and>
      is_warming_up (reset stub_rng)"
    by (simp add: engine_defs)
  ultimately show ?thesis
    using reachable_reset [of scenario_config stub_rng] by simp
qed

subsection \<open>Busy servers\<close>

text \<open>
  C7: in every reachable state and for every station, the server is busy exactly when the
  queue of the station is not empty and a DEPARTURE event of its head customer is in the
  event list; and the event list holds at most one DEPARTURE event of the station.
\<close>

theorem busy_iff_departure_pending:
  assumes "reachable cfg R s"
  shows "(server_busy s st \<longleftrightarrow>
            queues s st \<noteq> [] \<and>
            (\<exists>e \<in> set (events s).
               etype e = DEPARTURE \<and> queue_id e = st \<and> customer e = hd (queues s st))) \<and>
         length (filter (\<lambda>e. etype e = DEPARTURE \<and> queue_id e = st) (events s)) \<le> 1"
proof -
  from reachable_struct_inv [OF assms] have inv: "station_inv s st"
    by simp
  let ?ds = "filter (is_departure_at st) (events s)"
  have filt: "filter (\<lambda>e. etype e = DEPARTURE \<and> queue_id e = st) (events s) = ?ds"
    by (simp add: is_departure_at_def [abs_def])
  from station_inv_short [OF inv] have short: "length ?ds \<le> 1"
    by simp
  have busy: "\<exists>e \<in> set (events s).
      etype e = DEPARTURE \<and> queue_id e = st \<and> customer e = hd (queues s st)"
    if "server_busy s st"
  proof -
    from inv that have "map customer ?ds = [hd (queues s st)]"
      by (simp add: station_inv_def)
    then obtain e where "?ds = [e]" and c: "customer e = hd (queues s st)"
      by auto
    then have "e \<in> set ?ds"
      by simp
    then have "e \<in> set (events s)" "is_departure_at st e"
      by simp_all
    with c show ?thesis
      by (auto simp: is_departure_at_def)
  qed
  from inv have "server_busy s st \<longleftrightarrow> queues s st \<noteq> []"
    by (simp add: station_inv_def)
  with busy short filt show ?thesis
    by auto
qed

theorem busy_iff_departure_pending_witness:
  "reachable scenario_config stub_rng (scenario_state 1) \<and>
   server_busy (scenario_state 1) Q1 \<and> queues (scenario_state 1) Q1 \<noteq> [] \<and>
   (\<exists>e \<in> set (events (scenario_state 1)).
      etype e = DEPARTURE \<and> queue_id e = Q1 \<and> customer e = hd (queues (scenario_state 1) Q1)) \<and>
   length (filter (\<lambda>e. etype e = DEPARTURE \<and> queue_id e = Q1) (events (scenario_state 1))) \<le> 1"
proof -
  have "server_busy (scenario_state 1) Q1"
    by (simp add: scenario_state_def engine_defs eval_nat_numeral cong: let_weak_cong)
  with busy_iff_departure_pending [OF reachable_scenario_state, of 1 Q1]
  show ?thesis
    using reachable_scenario_state [of 1] by simp
qed

subsection \<open>The clock\<close>

lemma step_n_clock:
  assumes "reachable cfg R s" and "\<And>n rate. 0 \<le> R n (Expovariate rate)"
    and "step_n k cfg R s = Inr s'"
  shows "clock s \<le> clock s'"
  using assms
proof (induction k arbitrary: s)
  case 0
  then show ?case by simp
next
  case (Suc k)
  from Suc.prems(3) obtain r s1 where
    first: "step cfg R s = Inr (r, s1)" and rest: "step_n k cfg R s1 = Inr s'"
    by (auto split: sum.splits)
  from Suc.prems(1) first have reach: "reachable cfg R s1"
    by (rule reachable_step)
  have "clock s \<le> clock s1"
  proof (cases r)
    case None
    with step_clock [OF first] show ?thesis by simp
  next
    case (Some ev)
    with step_pops_head first obtain evs where "events s = ev # evs"
      by blast
    with advance_time_inv [OF reachable_time_inv [OF Suc.prems(1,2)]]
    have "clock s \<le> time ev"
      by simp
    with Some step_clock [OF first] show ?thesis by simp
  qed
  also from reach Suc.prems(2) rest have "clock s1 \<le> clock s'"
    by (rule Suc.IH)
  finally show ?case .
qed

text \<open>
  C8: when every interarrival and service draw is non-negative, a step that processes an
  event from a reachable state sets the clock to the time of the event, which is not
  before the clock of the state; so the clock does not decrease over any number of calls
  of \<open>step\<close>.
\<close>

theorem clock_non_decreasing:
  assumes "reachable cfg R s" and "\<forall>n rate. 0 \<le> R n (Expovariate rate)"
  shows "(step cfg R s = Inr (Some ev, s') \<longrightarrow> clock s \<le> time ev \<and> clock s' = time ev) \<and>
         (step_n k cfg R s = Inr s'' \<longrightarrow> clock s \<le> clock s'')"
proof -
  from assms(2) have nonneg: "\<And>n rate. 0 \<le> R n (Expovariate rate)"
    by simp
  have "clock s \<le> time ev \<and> clock s' = time ev" if st: "step cfg R s = Inr (Some ev, s')"
  proof -
    from step_pops_head [OF st] obtain evs where "events s = ev # evs"
      by blast
    with advance_time_inv [OF reachable_time_inv [OF assms(1) nonneg]]
    have "clock s \<le> time ev"
      by simp
    with step_clock [OF st] show ?thesis by simp
  qed
  with step_n_clock [OF assms(1) nonneg] show ?thesis
    by blast
qed

theorem clock_non_decreasing_witness:
  "reachable scenario_config stub_rng (scenario_state 3) \<and>
   (\<forall>n rate. 0 \<le> stub_rng n (Expovariate rate)) \<and>
   (case step scenario_config stub_rng (scenario_state 3) of
      Inr (Some ev, s') \<Rightarrow>
        clock (scenario_state 3) = 2 \<and> time ev = 2 \<and> clock s' = 2 \<and>
        clock (scenario_state 3) \<le> time ev
    | _ \<Rightarrow> False) \<and>
   (case step_n 4 scenario_config stub_rng (scenario_state 3) of
      Inr s'' \<Rightarrow> clock s'' = 3 \<and> clock (scenario_state 3) \<le> clock s''
    | Inl e \<Rightarrow> False)"
proof -
  have ev: "(case step scenario_config stub_rng (scenario_state 3) of
      Inr (Some ev, s') \<Rightarrow> clock (scenario_state 3) = 2 \<and> time ev = 2
    | _ \<Rightarrow> False) \<and>
   (case step_n 4 scenario_config stub_rng (scenario_state 3) of
      Inr s'' \<Rightarrow> clock s'' = 3
    | Inl e \<Rightarrow> False)"
    by (simp add: scenario_state_def engine_defs eval_nat_numeral cong: let_weak_cong)
  have nonneg: "\<forall>n rate. 0 \<le> stub_rng n (Expovariate rate)"
    by (simp add: stub_rng_nonneg)
  from clock_non_decreasing [OF reachable_scenario_state nonneg, of 3] ev
  show ?thesis
    using reachable_scenario_state [of 3] nonneg
    by (auto split: sum.splits option.splits)
qed

subsection \<open>The external arrival\<close>

text \<open>
  C10: in every reachable state the event list holds exactly one ARRIVAL event, and it is
  the arrival at station 1 of the customer whose id is the external-customer counter. So
  the event list is never empty, \<open>step\<close> raises no error, and \<open>step\<close> returns its
  finished signal only when \<open>completed_count\<close> has reached the target.
\<close>

theorem one_external_arrival_pending:
  assumes "reachable cfg R s"
  shows "length (filter (\<lambda>e. etype e = ARRIVAL) (events s)) = 1 \<and>
         length (filter (\<lambda>e. etype e = ARRIVAL \<and> queue_id e = Q1 \<and>
                              cust_id (customer e) = cust_counter s) (events s)) = 1 \<and>
         events s \<noteq> [] \<and>
         (\<exists>r s'. step cfg R s = Inr (r, s')) \<and>
         (\<forall>s'. step cfg R s = Inr (None, s') \<longrightarrow> MAX_COMPLETED cfg \<le> completed_count s)"
proof -
  from reachable_struct_inv [OF assms, of Q1] have
    inv: "map (\<lambda>e. (queue_id e, cust_id (customer e))) (filter is_arrival (events s)) =
            [(Q1, cust_counter s)]"
    by (simp add: arrival_inv_def)
  then obtain a where a: "filter is_arrival (events s) = [a]"
    and a1: "queue_id a = Q1" "cust_id (customer a) = cust_counter s"
    by auto
  have "filter (\<lambda>e. etype e = ARRIVAL \<and> queue_id e = Q1 \<and> cust_id (customer e) = cust_counter s)
          (events s) =
        filter (\<lambda>e. queue_id e = Q1 \<and> cust_id (customer e) = cust_counter s)
          (filter is_arrival (events s))"
    by (simp add: is_arrival_def conj_commute conj_left_commute)
  with a a1 have one: "length (filter (\<lambda>e. etype e = ARRIVAL \<and> queue_id e = Q1 \<and>
      cust_id (customer e) = cust_counter s) (events s)) = 1"
    by simp
  from a have all: "length (filter (\<lambda>e. etype e = ARRIVAL) (events s)) = 1"
    by (simp add: is_arrival_def [abs_def])
  from a have ne: "events s \<noteq> []"
    by auto
  have "MAX_COMPLETED cfg \<le> completed_count s" if "step cfg R s = Inr (None, s')" for s'
    using that ne by (cases rule: step_cases) simp_all
  with one all ne reachable_step_returns [OF assms] show ?thesis
    by blast
qed

theorem one_external_arrival_pending_witness:
  "reachable scenario_config stub_rng (scenario_state 26) \<and>
   length (filter (\<lambda>e. etype e = ARRIVAL) (events (scenario_state 26))) = 1 \<and>
   map shown (filter (\<lambda>e. etype e = ARRIVAL) (events (scenario_state 26))) =
     [(8, ARRIVAL, 8, Q1)] \<and>
   cust_counter (scenario_state 26) = 8 \<and>
   step scenario_config stub_rng (scenario_state 26) = Inr (None, scenario_state 26) \<and>
   MAX_COMPLETED scenario_config \<le> completed_count (scenario_state 26)"
proof -
  have ev: "map shown (filter (\<lambda>e. etype e = ARRIVAL) (events (scenario_state 26))) =
     [(8, ARRIVAL, 8, Q1)] \<and>
   cust_counter (scenario_state 26) = 8 \<and> completed_count (scenario_state 26) = 5"
    by (simp add: scenario_state_def engine_defs eval_nat_numeral cong: let_weak_cong)
  then have "events (scenario_state 26) \<noteq> []"
    by auto
  with ev have fin: "step scenario_config stub_rng (scenario_state 26) =
      Inr (None, scenario_state 26)"
    by (simp add: step_phases scenario_config_def split: list.splits)
  from one_external_arrival_pending [OF reachable_scenario_state, of 26] ev fin
  show ?thesis
    using reachable_scenario_state [of 26] by simp
qed

subsection \<open>The analytical model at and beyond saturation\<close>

text \<open>
  C9, as the code has it. The analytical computation makes no stability check. For a
  station with service rate \<open>m > 0\<close> and utilization \<open>l / m \<ge> 1\<close> it fails only when
  \<open>l = m\<close> (utilization exactly 1), with the division by zero of \<open>rho / (1 - rho)\<close>;
  when \<open>l > m\<close> it returns the values of the closed formulas, of which \<open>L\<close> and \<open>W\<close>
  are negative.
\<close>

theorem station_metrics_saturated:
  assumes "0 < m" and "1 \<le> l / m"
  shows "station_metrics l m =
           (if l = m then Inl ZeroDivisionError
            else Inr \<lparr>L_val = (l / m) / (1 - l / m), Lq_val = (l / m) / (1 - l / m) - l / m,
                      W_val = 1 / (m - l), Wq_val = 1 / (m - l) - 1 / m, Rho = l / m\<rparr>) \<and>
         (l \<noteq> m \<longrightarrow> (l / m) / (1 - l / m) < 0 \<and> 1 / (m - l) < 0)"
proof -
  from assms have le: "m \<le> l"
    by (simp add: le_divide_eq)
  from assms(1) have eq: "l / m = 1 \<longleftrightarrow> l = m"
    by (simp add: divide_eq_eq)
  have neg: "(l / m) / (1 - l / m) < 0 \<and> 1 / (m - l) < 0" if "l \<noteq> m"
  proof -
    from le that have lt: "m < l" by simp
    with assms(1) have "1 < l / m"
      by (simp add: less_divide_eq)
    moreover from lt assms(1) have "0 < l / m" by simp
    ultimately have "(l / m) / (1 - l / m) < 0"
      by (intro divide_pos_neg) simp_all
    moreover from lt have "1 / (m - l) < 0"
      by simp
    ultimately show ?thesis by simp
  qed
  from assms(1) eq neg show ?thesis
    by (auto simp: station_metrics_def Let_def)
qed

theorem station_metrics_saturated_witness:
  "(0::real) < 5 \<and> (1::real) \<le> 6 / 5 \<and>
   station_metrics 6 5 =
     Inr \<lparr>L_val = - 6, Lq_val = - 36 / 5, W_val = - 1, Wq_val = - 6 / 5, Rho = 6 / 5\<rparr> \<and>
   station_metrics 5 5 = Inl ZeroDivisionError"
proof -
  have h: "(0::real) < 5" "(1::real) \<le> 6 / 5" "(1::real) \<le> 5 / 5"
    by simp_all
  from station_metrics_saturated [OF h(1) h(2)] station_metrics_saturated [OF h(1) h(3)] h
  show ?thesis
    by simp
qed

text \<open>
  C9 as the specification states it fails: with source rate 6 and the service rates of
  the source the utilization of station 1 is 6/5, and the computation returns metrics
  for all four stations.
\<close>

theorem analytical_unstable_counterexample:
  "(1::real) \<le> eff_lam 6 Q1 / MU_RATES Q1 \<and>
   station_metrics (eff_lam 6 Q1) (MU_RATES Q1) =
     Inr \<lparr>L_val = - 6, Lq_val = - 36 / 5, W_val = - 1, Wq_val = - 6 / 5, Rho = 6 / 5\<rparr> \<and>
   (case analytical 6 MU_RATES of
      Inr (ana_metrics, total_L_ana, sys_R_ana) \<Rightarrow> map fst ana_metrics = [Q1, Q2, Q3, Q4]
    | Inl e \<Rightarrow> False)"
  by (simp add: analytical_def eff_lam_def station_metrics_def Let_def)

end
